theory Spec2Isabelle
  imports Complex_Main "HOL-Library.Sublist"
begin

unbundle bit_operations_syntax

section \<open>JavaScript values and exceptions\<close>

text \<open>
  The JavaScript binding throws three classes of exception: the generic \<open>Error\<close>,
  \<open>ReferenceError\<close> and \<open>TypeError\<close>, each carrying its message. A thrown exception
  is the \<open>Inl\<close> branch of a result.
\<close>

datatype error = Error string | ReferenceError string | TypeError string

fun is_ReferenceError :: "error \<Rightarrow> bool" where
  "is_ReferenceError (ReferenceError m) = True"
| "is_ReferenceError (Error m) = False"
| "is_ReferenceError (TypeError m) = False"

text \<open>
  The values that cross the configuration interface: \<open>null\<close>, strings (as their UTF-8
  bytes), numbers and booleans.
\<close>

datatype jsval = JNull | JString string | JNumber real | JBoolean bool

text \<open>
  \<open>allocateUTF8OnStack\<close> copies a JavaScript string into linear memory and appends a
  terminating zero byte; the C side reads the bytes up to the first zero byte.
\<close>

definition allocateUTF8OnStack :: "string \<Rightarrow> string" where
  "allocateUTF8OnStack s = takeWhile (\<lambda>ch. ch \<noteq> CHR 0x00) s"

text \<open>Decimal rendering of an integer, as string concatenation in JavaScript produces it.\<close>

fun string_of_nat :: "nat \<Rightarrow> string" where
  "string_of_nat n =
     (if n < 10 then [''0123456789'' ! n]
      else string_of_nat (n div 10) @ [''0123456789'' ! (n mod 10)])"

declare string_of_nat.simps [simp del]

definition string_of_int :: "int \<Rightarrow> string" where
  "string_of_int i = (if i < 0 then CHR ''-'' # string_of_nat (nat (- i)) else string_of_nat (nat i))"

section \<open>The configuration store\<close>

text \<open>
  Argument type flags of the store, as the binding declares them
  (\<open>1 << 1\<close>, \<open>1 << 2\<close>, \<open>1 << 3\<close>, \<open>1 << 4\<close>).
\<close>

definition ARG_INTEGER :: int where "ARG_INTEGER = 2"
definition ARG_FLOATING :: int where "ARG_FLOATING = 4"
definition ARG_STRING :: int where "ARG_STRING = 8"
definition ARG_BOOLEAN :: int where "ARG_BOOLEAN = 16"

text \<open>
  Modelled from the spec: the native configuration store \<open>cmd_ln_t\<close> and its accessors
  (\<open>cmd_ln_exists_r\<close>, \<open>cmd_ln_type_r\<close>, \<open>cmd_ln_set_*_r\<close>, \<open>cmd_ln_*_r\<close>) are not part
  of the sources at hand. The spec describes a store with typed get and set by string key
  over four value kinds (string, integer, floating, boolean). A stored entry is its type
  flags and its value; a string value may be the null pointer.
\<close>

datatype cval = CStr "string option" | CInt int | CFloat real

type_synonym cmd_ln_t = "string \<Rightarrow> (int \<times> cval) option"

definition cmd_ln_exists_r :: "cmd_ln_t \<Rightarrow> string \<Rightarrow> bool" where
  "cmd_ln_exists_r c k = (c k \<noteq> None)"

definition cmd_ln_type_r :: "cmd_ln_t \<Rightarrow> string \<Rightarrow> int" where
  "cmd_ln_type_r c k = (case c k of None \<Rightarrow> 0 | Some (ty, v) \<Rightarrow> ty)"

definition cmd_ln_set_r :: "cmd_ln_t \<Rightarrow> string \<Rightarrow> cval \<Rightarrow> cmd_ln_t" where
  "cmd_ln_set_r c k v = (case c k of None \<Rightarrow> c | Some (ty, old) \<Rightarrow> c(k \<mapsto> (ty, v)))"

definition cmd_ln_set_str_r :: "cmd_ln_t \<Rightarrow> string \<Rightarrow> string \<Rightarrow> cmd_ln_t" where
  "cmd_ln_set_str_r c k s = cmd_ln_set_r c k (CStr (Some s))"

definition cmd_ln_set_float_r :: "cmd_ln_t \<Rightarrow> string \<Rightarrow> real \<Rightarrow> cmd_ln_t" where
  "cmd_ln_set_float_r c k x = cmd_ln_set_r c k (CFloat x)"

definition cmd_ln_set_int_r :: "cmd_ln_t \<Rightarrow> string \<Rightarrow> int \<Rightarrow> cmd_ln_t" where
  "cmd_ln_set_int_r c k i = cmd_ln_set_r c k (CInt i)"

definition cmd_ln_str_r :: "cmd_ln_t \<Rightarrow> string \<Rightarrow> string option" where
  "cmd_ln_str_r c k = (case c k of Some (ty, CStr s) \<Rightarrow> s | _ \<Rightarrow> None)"

definition cmd_ln_float_r :: "cmd_ln_t \<Rightarrow> string \<Rightarrow> real" where
  "cmd_ln_float_r c k = (case c k of Some (ty, CFloat x) \<Rightarrow> x | _ \<Rightarrow> 0)"

definition cmd_ln_int_r :: "cmd_ln_t \<Rightarrow> string \<Rightarrow> int" where
  "cmd_ln_int_r c k = (case c k of Some (ty, CInt i) \<Rightarrow> i | _ \<Rightarrow> 0)"

text \<open>
  How a JavaScript value arrives in a C parameter. A string argument is copied by
  \<open>allocateUTF8OnStack\<close>; what the runtime makes of any other value in a string
  position, and of any value in a \<open>double\<close> or \<open>long\<close> position, is a parameter.
\<close>

record boundary =
  other_as_string :: "jsval \<Rightarrow> string"
  as_double :: "jsval \<Rightarrow> real"
  as_long :: "jsval \<Rightarrow> int"

definition string_arg :: "'a boundary_scheme \<Rightarrow> jsval \<Rightarrow> string" where
  "string_arg B v = (case v of JString s \<Rightarrow> allocateUTF8OnStack s | _ \<Rightarrow> other_as_string B v)"

subsection \<open>Class Config\<close>

definition Config_has :: "cmd_ln_t \<Rightarrow> string \<Rightarrow> bool" where
  "Config_has c key = cmd_ln_exists_r c (allocateUTF8OnStack key)"

definition normalize_key :: "cmd_ln_t \<Rightarrow> string \<Rightarrow> string" where
  "normalize_key c key =
     (case key of
        [] \<Rightarrow> []
      | k0 # rest \<Rightarrow>
          if k0 = CHR ''_'' then key
          else if k0 = CHR ''-'' then
            (let under_key = CHR ''_'' # rest in
             if Config_has c under_key then under_key else key)
          else
            (let under_key = CHR ''_'' # key in
             if Config_has c under_key then under_key
             else
               (let dash_key = CHR ''-'' # key in
                if Config_has c dash_key then dash_key else key)))"

definition normalize_ckey :: "string \<Rightarrow> string" where
  "normalize_ckey ckey =
     (case ckey of
        [] \<Rightarrow> ckey
      | k0 # rest \<Rightarrow> if k0 = CHR ''-'' \<or> k0 = CHR ''_'' then rest else ckey)"

definition Config_set ::
  "'a boundary_scheme \<Rightarrow> cmd_ln_t \<Rightarrow> string \<Rightarrow> jsval \<Rightarrow> (error + bool) \<times> cmd_ln_t" where
  "Config_set B c key val =
     (let nkey = normalize_key c key;
          ckey = allocateUTF8OnStack nkey;
          ty = cmd_ln_type_r c ckey
      in if ty = 0 then (Inl (ReferenceError (''Unknown cmd_ln parameter '' @ key)), c)
         else if ty AND ARG_STRING \<noteq> 0 then
           (Inr True, cmd_ln_set_str_r c ckey (string_arg B val))
         else if ty AND ARG_FLOATING \<noteq> 0 then
           (Inr True, cmd_ln_set_float_r c ckey (as_double B val))
         else if ty AND (ARG_INTEGER OR ARG_BOOLEAN) \<noteq> 0 then
           (Inr True, cmd_ln_set_int_r c ckey (as_long B val))
         else (Inr False, c))"

definition Config_get :: "cmd_ln_t \<Rightarrow> string \<Rightarrow> error + jsval" where
  "Config_get c key =
     (let ckey = allocateUTF8OnStack (normalize_key c key);
          ty = cmd_ln_type_r c ckey
      in if ty = 0 then Inl (ReferenceError (''Unknown cmd_ln parameter '' @ key))
         else if ty AND ARG_STRING \<noteq> 0 then
           (case cmd_ln_str_r c ckey of None \<Rightarrow> Inr JNull | Some s \<Rightarrow> Inr (JString s))
         else if ty AND ARG_FLOATING \<noteq> 0 then Inr (JNumber (cmd_ln_float_r c ckey))
         else if ty AND ARG_INTEGER \<noteq> 0 then Inr (JNumber (of_int (cmd_ln_int_r c ckey)))
         else if ty AND ARG_BOOLEAN \<noteq> 0 then Inr (JBoolean (cmd_ln_int_r c ckey \<noteq> 0))
         else Inl (TypeError (''Unsupported type '' @ string_of_int ty @ '' for parameter'' @ key)))"

text \<open>
  The parameter names of a store, as the iterator of \<open>Config\<close> lists them: every stored key
  with its leading dash or underscore removed by \<open>normalize_ckey\<close>.
\<close>

definition parameter_names :: "cmd_ln_t \<Rightarrow> string set" where
  "parameter_names c = normalize_ckey ` dom c"

text \<open>
  A store is typed when every parameter it holds has a type: the native library declares
  each parameter with one of the four kinds, so its type flags are never 0.
\<close>

definition typed_store :: "cmd_ln_t \<Rightarrow> bool" where
  "typed_store c = (\<forall>k. c k \<noteq> None \<longrightarrow> cmd_ln_type_r c k \<noteq> 0)"

section \<open>Grammar automata and grammar text\<close>

text \<open>
  Modelled from the spec: the native automaton \<open>fsg_model_t\<close> and its functions are not
  part of the sources at hand. The spec gives an automaton a name, a state count, a start
  and a final state, an ordered list of transitions and a word table (text to sequential
  id, in insertion order, without duplicates); a transition has a source and a destination
  state, a log-probability and an optional word id, absent for a null transition. The
  language weight is kept with the automaton. State indices are natural numbers.
\<close>

record fsg_link =
  from_state :: nat
  to_state :: nat
  logs2prob :: int
  wid :: "nat option"

record fsg_model =
  fsg_name :: string
  fsg_lw :: real
  n_state :: nat
  start_state :: nat
  final_state :: nat
  links :: "fsg_link list"
  vocab :: "string list"

text \<open>
  Modelled from the spec: a parsed grammar text is its list of rules, in the order of the
  text, each with its name and whether it is marked public. The parser
  (\<open>jsgf_parse_string\<close>) and the lowering of a rule to an automaton (\<open>jsgf_build_fsg\<close>)
  are parameters of the environment.
\<close>

record jsgf_rule =
  rule_name :: string
  is_public :: bool

type_synonym jsgf_t = "jsgf_rule list"

section \<open>The environment of the binding\<close>

text \<open>
  The calls the binding makes on the native decoder handle \<open>ps\<close>, with their arguments.
  The history of these calls, each with the value it returned, stands for the state of
  the native decoder.
\<close>

datatype ps_call =
    Ps_init_config | Ps_init_cleanup | Ps_init_fe | Ps_init_feat | Ps_init_acmod_pre
  | Set_mdef int | Set_tmat int | Load_gmm int int int int
  | Ps_init_acmod_post | Ps_init_dict | Ps_init_grammar
  | Ps_reinit_fe | Ps_start_utt | Ps_end_utt
  | Ps_process_float32 "real list" int bool bool
  | Ps_add_word string string bool
  | Ps_set_fsg string int

text \<open>
  Everything the binding obtains from outside its own code is a field of the environment:
  the module's globals, the file system and \<open>fetch\<close>, the regular-expression engine and
  the results of the native library. A native call on the decoder handle returns a value
  that may depend on the configuration store and on all earlier calls on the handle
  (\<open>ps_rv\<close>). A pointer is an integer, 0 for \<open>NULL\<close>.
\<close>

record env = boundary +
  other_ToString :: "jsval \<Rightarrow> string"
  ps_args :: cmd_ln_t
  defaultModel :: jsval
  model_paths :: "string \<Rightarrow> string option"
  RUNNING_ON_WEB :: bool
  fetch :: "jsval \<Rightarrow> error + (string + string)"
  readFile_utf8 :: "jsval \<Rightarrow> error + string"
  matchAll_line_re :: "string \<Rightarrow> string list"
  trim :: "string \<Rightarrow> string"
  matchAll_arg_re :: "string \<Rightarrow> string list"
  readFile :: "jsval \<Rightarrow> error + nat"
  malloc :: "nat \<Rightarrow> int"
  s3file_init :: "int \<Rightarrow> nat \<Rightarrow> int"
  ps_init :: int
  ps_rv :: "cmd_ln_t \<Rightarrow> (ps_call \<times> int) list \<Rightarrow> ps_call \<Rightarrow> int"
  ps_get_logmath :: int
  bin_mdef_read_s3file :: "int \<Rightarrow> int"
  tmat_init_s3file :: "int \<Rightarrow> int \<Rightarrow> jsval \<Rightarrow> int"
  ps_get_hyp :: "(ps_call \<times> int) list \<Rightarrow> string"
  ps_seg_iter :: "(ps_call \<times> int) list \<Rightarrow> (string \<times> int \<times> int) list"
  ps_lookup_word :: "(ps_call \<times> int) list \<Rightarrow> string \<Rightarrow> string option"
  logmath_log :: "real \<Rightarrow> int"
  word_add_fails :: "string list \<Rightarrow> string \<Rightarrow> bool"
  jsgf_parse_string :: "string \<Rightarrow> jsgf_t option"
  jsgf_build_fsg :: "jsgf_t \<Rightarrow> jsgf_rule \<Rightarrow> int \<Rightarrow> real \<Rightarrow> fsg_model option"

text \<open>
  String conversion of a value in a concatenation or as a property name: a string is
  itself; the rendering of any other value is the runtime's.
\<close>

definition ToString :: "'a env_scheme \<Rightarrow> jsval \<Rightarrow> string" where
  "ToString E v = (case v of JString s \<Rightarrow> s | _ \<Rightarrow> other_ToString E v)"

subsection \<open>Construction of a Config\<close>

text \<open>
  The enumerable properties of the caller's object are an association list in enumeration
  order. The constructor throws what \<open>set\<close> throws, and then no object exists.
\<close>

fun set_all ::
  "'a boundary_scheme \<Rightarrow> cmd_ln_t \<Rightarrow> (string \<times> jsval) list \<Rightarrow> error + cmd_ln_t" where
  "set_all B c [] = Inr c"
| "set_all B c ((key, val) # dict) =
     (case Config_set B c key val of
        (Inl e, c') \<Rightarrow> Inl e
      | (Inr ok, c') \<Rightarrow> set_all B c' dict)"

definition Config_new :: "'a env_scheme \<Rightarrow> (string \<times> jsval) list option \<Rightarrow> error + cmd_ln_t" where
  "Config_new E dict =
     (let cmd_ln = ps_args E in
      case dict of
        None \<Rightarrow>
          if defaultModel E \<noteq> JNull then set_all E cmd_ln [(''hmm'', defaultModel E)]
          else Inr cmd_ln
      | Some props \<Rightarrow>
          if defaultModel E \<noteq> JNull \<and> ''hmm'' \<notin> fst ` set props
          then set_all E cmd_ln (props @ [(''hmm'', defaultModel E)])
          else set_all E cmd_ln props)"

subsection \<open>Model paths and the model's parameter file\<close>

definition model_path :: "'a env_scheme \<Rightarrow> cmd_ln_t \<Rightarrow> string \<Rightarrow> string \<Rightarrow> error + jsval" where
  "model_path E c key modelfile =
     (case Config_get c key of
        Inl e \<Rightarrow> Inl e
      | Inr val \<Rightarrow>
          if val \<noteq> JNull then Inr val
          else
            (case Config_get c ''hmm'' of
               Inl e \<Rightarrow> Inl e
             | Inr hmmpath \<Rightarrow>
                 if hmmpath = JNull
                 then Inl (Error (''Could not get '' @ key @ '' from config or model directory''))
                 else
                   (case model_paths E (ToString E hmmpath) of
                      Some p \<Rightarrow> Inr (JString (p @ ''/'' @ modelfile))
                    | None \<Rightarrow> Inr (JString (ToString E hmmpath @ ''/'' @ modelfile)))))"

text \<open>
  \<open>read_featparams\<close> is a generator of key and value pairs. The text is split into lines
  by \<open>line_re\<close>, each line is trimmed and split into tokens by \<open>arg_re\<close> (the token of a
  match is its first defined group); these three steps are the regular-expression
  engine's and are parameters. A token \<open>#\<close> ends its line; the tokens pair up across
  lines, and a key left without a value at the end is an error raised after the last pair.
\<close>

fun pair_tokens :: "string option \<Rightarrow> string list \<Rightarrow> (string \<times> string) list \<times> string option" where
  "pair_tokens key [] = ([], key)"
| "pair_tokens key (token # rest) =
     (if token = ''#'' then ([], key)
      else
        (case key of
           Some k \<Rightarrow> (let (ps, key') = pair_tokens None rest in ((k, token) # ps, key'))
         | None \<Rightarrow> pair_tokens (Some token) rest))"

fun pair_lines :: "string option \<Rightarrow> string list list \<Rightarrow> (string \<times> string) list \<times> string option" where
  "pair_lines key [] = ([], key)"
| "pair_lines key (line # lines) =
     (let (ps, key1) = pair_tokens key line;
          (qs, key2) = pair_lines key1 lines
      in (ps @ qs, key2))"

definition read_featparams ::
  "'a env_scheme \<Rightarrow> jsval \<Rightarrow> error + ((string \<times> string) list \<times> error option)" where
  "read_featparams E featparams =
     (case (if RUNNING_ON_WEB E then
              (case fetch E featparams of
                 Inl e \<Rightarrow> Inl e
               | Inr (Inr body) \<Rightarrow> Inr body
               | Inr (Inl statusText) \<Rightarrow>
                   Inl (Error (''Failed to fetch '' @ ToString E featparams @ '' :'' @ statusText)))
            else readFile_utf8 E featparams) of
        Inl e \<Rightarrow> Inl e
      | Inr fpdata \<Rightarrow>
          (let (ps, key) =
                 pair_lines None (map (\<lambda>m. matchAll_arg_re E (trim E m)) (matchAll_line_re E fpdata))
           in Inr (ps, if key \<noteq> None
                       then Some (Error (''Odd number of arguments in '' @ ToString E featparams))
                       else None)))"

text \<open>
  The loop of \<open>init_featparams\<close> over the pairs: a pair is applied by \<open>set\<close> when \<open>has\<close>
  finds its key in the store, and passed over otherwise.
\<close>

fun apply_pairs ::
  "'a boundary_scheme \<Rightarrow> cmd_ln_t \<Rightarrow> (string \<times> string) list \<Rightarrow> (error + unit) \<times> cmd_ln_t" where
  "apply_pairs B c [] = (Inr (), c)"
| "apply_pairs B c (pair # pairs) =
     (if Config_has c (fst pair) then
        (case Config_set B c (fst pair) (JString (snd pair)) of
           (Inl e, c') \<Rightarrow> (Inl e, c')
         | (Inr ok, c') \<Rightarrow> apply_pairs B c' pairs)
      else apply_pairs B c pairs)"

definition featparams_into ::
  "'a env_scheme \<Rightarrow> cmd_ln_t \<Rightarrow> (error + unit) \<times> cmd_ln_t" where
  "featparams_into E c =
     (case model_path E c ''featparams'' ''feat.params'' of
        Inl e \<Rightarrow> (Inl e, c)
      | Inr featparams \<Rightarrow>
          (case read_featparams E featparams of
             Inl e \<Rightarrow> (Inl e, c)
           | Inr (pairs, at_end) \<Rightarrow>
               (case apply_pairs E c pairs of
                  (Inl e, c') \<Rightarrow> (Inl e, c')
                | (Inr u, c') \<Rightarrow>
                    (case at_end of Some e \<Rightarrow> (Inl e, c') | None \<Rightarrow> (Inr (), c')))))"

subsection \<open>What a sequence of writes leaves\<close>

text \<open>
  The key that \<open>set\<close> and \<open>get\<close> pass to the store for a key of the caller, and their
  test for an unknown parameter: the store reports type 0 for that key.
\<close>

definition stored_key :: "cmd_ln_t \<Rightarrow> string \<Rightarrow> string" where
  "stored_key c key = allocateUTF8OnStack (normalize_key c key)"


text \<open>
  The store that a sequence of writes should leave, stated without the loop: a parameter
  addressed by no entry keeps what it held, and one addressed by some entry holds what a
  single \<open>set\<close> of the last such entry puts there.
\<close>

definition merged :: "'a boundary_scheme \<Rightarrow> cmd_ln_t \<Rightarrow> (string \<times> jsval) list \<Rightarrow> cmd_ln_t" where
  "merged B c entries x =
     (case find (\<lambda>p. stored_key c (fst p) = x) (rev entries) of
        None \<Rightarrow> c x
      | Some p \<Rightarrow> snd (Config_set B c (fst p) (snd p)) x)"


section \<open>The native grammar functions\<close>

text \<open>
  Modelled from the spec: automata live in the module's memory, addressed by pointers. A
  pointer is a natural number, 0 for \<open>NULL\<close>; memory is the map from pointers to the
  automata allocated and not yet freed. A call on a pointer that holds no automaton
  changes nothing.
\<close>

record heap =
  cells :: "nat \<Rightarrow> fsg_model option"
  brk :: nat

definition heap_alloc :: "heap \<Rightarrow> fsg_model \<Rightarrow> nat \<times> heap" where
  "heap_alloc h g = (let p = Suc (brk h) in (p, h\<lparr>cells := (cells h)(p \<mapsto> g), brk := p\<rparr>))"

definition heap_update :: "heap \<Rightarrow> nat \<Rightarrow> (fsg_model \<Rightarrow> fsg_model) \<Rightarrow> heap" where
  "heap_update h p f = (case cells h p of None \<Rightarrow> h | Some g \<Rightarrow> h\<lparr>cells := (cells h)(p \<mapsto> f g)\<rparr>)"

definition fsg_model_init :: "heap \<Rightarrow> string \<Rightarrow> real \<Rightarrow> nat \<Rightarrow> nat \<times> heap" where
  "fsg_model_init h name lw n =
     heap_alloc h \<lparr>fsg_name = name, fsg_lw = lw, n_state = n, start_state = 0, final_state = 0,
                   links = [], vocab = []\<rparr>"

definition fsg_set_states :: "heap \<Rightarrow> nat \<Rightarrow> nat \<Rightarrow> nat \<Rightarrow> heap" where
  "fsg_set_states h p s f = heap_update h p (\<lambda>g. g\<lparr>start_state := s, final_state := f\<rparr>)"

fun fsg_model_word_id :: "string list \<Rightarrow> string \<Rightarrow> nat option" where
  "fsg_model_word_id [] w = None"
| "fsg_model_word_id (x # xs) w = (if x = w then Some 0 else map_option Suc (fsg_model_word_id xs w))"

text \<open>
  \<open>add_word\<close> returns the id of a word already in the table and gives a new word the next
  id. The binding tests its result against -1; when the native function gives that answer
  (it is out of resources, say) is the environment's to decide, from the table and the word.
\<close>

definition fsg_model_word_add :: "'a env_scheme \<Rightarrow> heap \<Rightarrow> nat \<Rightarrow> string \<Rightarrow> int \<times> heap" where
  "fsg_model_word_add E h p w =
     (case cells h p of
        None \<Rightarrow> (- 1, h)
      | Some g \<Rightarrow>
          if word_add_fails E (vocab g) w then (- 1, h)
          else
            (case fsg_model_word_id (vocab g) w of
               Some i \<Rightarrow> (int i, h)
             | None \<Rightarrow> (int (length (vocab g)), heap_update h p (\<lambda>g. g\<lparr>vocab := vocab g @ [w]\<rparr>))))"

definition fsg_model_trans_add :: "heap \<Rightarrow> nat \<Rightarrow> nat \<Rightarrow> nat \<Rightarrow> int \<Rightarrow> int \<Rightarrow> heap" where
  "fsg_model_trans_add h p src dst logp w =
     heap_update h p
       (\<lambda>g. g\<lparr>links := links g @ [\<lparr>from_state = src, to_state = dst, logs2prob = logp, wid = Some (nat w)\<rparr>]\<rparr>)"

definition fsg_model_null_trans_add :: "heap \<Rightarrow> nat \<Rightarrow> nat \<Rightarrow> nat \<Rightarrow> int \<Rightarrow> heap" where
  "fsg_model_null_trans_add h p src dst logp =
     heap_update h p
       (\<lambda>g. g\<lparr>links := links g @ [\<lparr>from_state = src, to_state = dst, logs2prob = logp, wid = None\<rparr>]\<rparr>)"

definition fsg_model_free :: "heap \<Rightarrow> nat \<Rightarrow> heap" where
  "fsg_model_free h p = h\<lparr>cells := (cells h)(p := None)\<rparr>"

definition jsgf_get_rule :: "jsgf_t \<Rightarrow> string \<Rightarrow> jsgf_rule option" where
  "jsgf_get_rule jsgf name = find (\<lambda>r. rule_name r = name) jsgf"

definition jsgf_get_public_rule :: "jsgf_t \<Rightarrow> jsgf_rule option" where
  "jsgf_get_public_rule jsgf = find is_public jsgf"

section \<open>Class Decoder\<close>

text \<open>
  The decoder object has the fields \<open>config\<close>, \<open>initialized\<close> and \<open>ps\<close>. With them the
  state keeps what lies behind the handle and the module: the calls made on the native
  decoder with their results (\<open>calls\<close>), the files and URLs requested (\<open>reads\<close>), the
  automata in memory (\<open>fsgs\<close>), and whether \<open>delete\<close> has been called on the Config that
  \<open>config\<close> holds (\<open>config_deleted\<close>).
\<close>

record Decoder =
  config :: cmd_ln_t
  config_deleted :: bool
  initialized :: bool
  ps :: int
  calls :: "(ps_call \<times> int) list"
  reads :: "jsval list"
  fsgs :: heap

text \<open>
  A method takes the state and gives back either the exception thrown or the value
  returned, with the state it leaves. \<open>await\<close> runs the rest of a method after a step
  that did not throw.
\<close>

type_synonym 'a action = "Decoder \<Rightarrow> (error + 'a) \<times> Decoder"

definition ret :: "'a \<Rightarrow> 'a action" where
  "ret x d = (Inr x, d)"

definition throw :: "error \<Rightarrow> 'a action" where
  "throw e d = (Inl e, d)"

definition await :: "'a action \<Rightarrow> ('a \<Rightarrow> 'b action) \<Rightarrow> 'b action" where
  "await m k d = (case m d of (Inl e, d') \<Rightarrow> (Inl e, d') | (Inr x, d') \<Rightarrow> k x d')"

definition of_result :: "error + 'a \<Rightarrow> 'a action" where
  "of_result r d = (r, d)"

definition native :: "'a env_scheme \<Rightarrow> ps_call \<Rightarrow> int action" where
  "native E k d =
     (let rv = ps_rv E (config d) (calls d) k in (Inr rv, d\<lparr>calls := calls d @ [(k, rv)]\<rparr>))"

datatype config_arg = NoArg | ConfigObject cmd_ln_t | Dict "(string \<times> jsval) list"

definition Decoder_new :: "'a env_scheme \<Rightarrow> heap \<Rightarrow> config_arg \<Rightarrow> error + Decoder" where
  "Decoder_new E h arg =
     (case (case arg of
              ConfigObject c \<Rightarrow> Inr c
            | NoArg \<Rightarrow> Config_new E None
            | Dict props \<Rightarrow> Config_new E (Some props)) of
        Inl e \<Rightarrow> Inl e
      | Inr c \<Rightarrow>
          if ps_init E = 0 then Inl (Error ''Failed to construct Decoder'')
          else Inr \<lparr>config = c, config_deleted = False, initialized = False, ps = ps_init E,
                    calls = [], reads = [], fsgs = h\<rparr>)"

subsection \<open>Initialization\<close>

definition init_featparams :: "'a env_scheme \<Rightarrow> unit action" where
  "init_featparams E d =
     (let (r, c') = featparams_into E (config d) in (r, d\<lparr>config := c'\<rparr>))"

definition init_config :: "'a env_scheme \<Rightarrow> unit action" where
  "init_config E =
     await (init_featparams E) (\<lambda>u.
     await (native E Ps_init_config) (\<lambda>rv.
       if rv < 0 then throw (Error ''Failed to initialize basic configuration'')
       else
         await (native E Ps_init_cleanup) (\<lambda>rv.
           if rv < 0 then throw (Error ''Failed to clean up decoder internals'')
           else ret ())))"

definition init_fe :: "'a env_scheme \<Rightarrow> unit action" where
  "init_fe E =
     await (native E Ps_init_fe) (\<lambda>rv.
       if rv = 0 then throw (Error ''Failed to initialize frontend'') else ret ())"

definition init_feat :: "'a env_scheme \<Rightarrow> unit action" where
  "init_feat E =
     await (native E Ps_init_feat) (\<lambda>rv.
       if rv = 0 then throw (Error ''Failed to initialize feature module'') else ret ())"

definition init_acmod :: "'a env_scheme \<Rightarrow> unit action" where
  "init_acmod E =
     await (native E Ps_init_acmod_pre) (\<lambda>rv.
       if rv = 0 then throw (Error ''Failed to initialize acoustic model'') else ret ())"

text \<open>
  \<open>load_to_s3file\<close> reads a file into memory and wraps it as a container; what it returns
  or throws does not depend on the decoder (\<open>s3file_of\<close>), and the request is recorded.
\<close>

definition s3file_of :: "'a env_scheme \<Rightarrow> jsval \<Rightarrow> error + int" where
  "s3file_of E path =
     (case readFile E path of
        Inl e \<Rightarrow> Inl e
      | Inr len \<Rightarrow>
          (let blob_addr = malloc E len in
           if blob_addr = 0
           then Inl (Error (''Failed to allocate '' @ string_of_nat len @ '' bytes for ''
                            @ ToString E path))
           else Inr (s3file_init E blob_addr len)))"

definition load_to_s3file :: "'a env_scheme \<Rightarrow> jsval \<Rightarrow> int action" where
  "load_to_s3file E path d = (s3file_of E path, d\<lparr>reads := reads d @ [path]\<rparr>)"

definition load_mdef :: "'a env_scheme \<Rightarrow> jsval \<Rightarrow> unit action" where
  "load_mdef E mdef_path =
     await (load_to_s3file E mdef_path) (\<lambda>s3f.
       let mdef = bin_mdef_read_s3file E s3f in
       if mdef = 0 then throw (Error ''Failed to read mdef'')
       else await (native E (Set_mdef mdef)) (\<lambda>rv. ret ()))"

definition load_tmat :: "'a env_scheme \<Rightarrow> jsval \<Rightarrow> unit action" where
  "load_tmat E tmat_path =
     await (load_to_s3file E tmat_path) (\<lambda>s3f.
     await (\<lambda>d. of_result (Config_get (config d) ''tmatfloor'') d) (\<lambda>tpfloor.
       let tmat = tmat_init_s3file E s3f (ps_get_logmath E) tpfloor in
       if tmat = 0 then throw (Error ''Failed to read tmat'')
       else await (native E (Set_tmat tmat)) (\<lambda>rv. ret ())))"

text \<open>
  The \<open>try\<close> block of \<open>load_gmm\<close> with its \<open>catch\<close>: the pair of pointers
  (\<open>sendump\<close>, \<open>mixw\<close>) it leaves, one of them null.
\<close>

definition prefer_sendump :: "'a env_scheme \<Rightarrow> jsval \<Rightarrow> jsval \<Rightarrow> (int \<times> int) action" where
  "prefer_sendump E sendump_path mixw_path d =
     (case load_to_s3file E sendump_path d of
        (Inr sendump, d') \<Rightarrow> (Inr (sendump, 0), d')
      | (Inl e, d') \<Rightarrow>
          (case load_to_s3file E mixw_path d' of
             (Inr mixw, d'') \<Rightarrow> (Inr (0, mixw), d'')
           | (Inl e', d'') \<Rightarrow> (Inl e', d'')))"

definition load_gmm :: "'a env_scheme \<Rightarrow> jsval \<Rightarrow> jsval \<Rightarrow> jsval \<Rightarrow> jsval \<Rightarrow> unit action" where
  "load_gmm E means_path variances_path sendump_path mixw_path =
     await (load_to_s3file E means_path) (\<lambda>means.
     await (load_to_s3file E variances_path) (\<lambda>variances.
     await (prefer_sendump E sendump_path mixw_path) (\<lambda>(sendump, mixw).
     await (native E (Load_gmm means variances mixw sendump)) (\<lambda>rv.
       if rv < 0 then throw (Error ''Failed to load GMM parameters'') else ret ()))))"

definition config_model_path :: "'a env_scheme \<Rightarrow> string \<Rightarrow> string \<Rightarrow> jsval action" where
  "config_model_path E key modelfile d = of_result (model_path E (config d) key modelfile) d"

definition load_acmod_files :: "'a env_scheme \<Rightarrow> unit action" where
  "load_acmod_files E =
     await (config_model_path E ''mdef'' ''mdef.bin'') (\<lambda>mdef.
     await (load_mdef E mdef) (\<lambda>u.
     await (config_model_path E ''tmat'' ''transition_matrices'') (\<lambda>tmat.
     await (load_tmat E tmat) (\<lambda>u.
     await (config_model_path E ''mean'' ''means'') (\<lambda>means.
     await (config_model_path E ''var'' ''variances'') (\<lambda>variances.
     await (config_model_path E ''sendump'' ''sendump'') (\<lambda>sendump.
     await (config_model_path E ''mixw'' ''mixture_weights'') (\<lambda>mixw.
     await (load_gmm E means variances sendump mixw) (\<lambda>u.
     await (native E Ps_init_acmod_post) (\<lambda>rv.
       if rv < 0 then throw (Error ''Failed to initialize acoustic scoring'') else ret ()))))))))))"

definition init_dict :: "'a env_scheme \<Rightarrow> unit action" where
  "init_dict E =
     await (native E Ps_init_dict) (\<lambda>rv.
       if rv = 0 then throw (Error ''Failed to initialize dictionaries'') else ret ())"

definition init_grammar :: "'a env_scheme \<Rightarrow> unit action" where
  "init_grammar E =
     await (native E Ps_init_grammar) (\<lambda>rv.
       if rv < 0 then throw (Error ''Failed to initialize grammar'') else ret ())"

text \<open>
  \<open>initialize\<close> first replaces the configuration when one is passed: the old Config is
  deleted, and the new one is the object passed or is constructed from the properties
  passed, which may throw. The awaited steps that follow the test of the handle are
  \<open>init_chain\<close>; the flag is raised after the last of them.
\<close>

definition replace_config :: "'a env_scheme \<Rightarrow> config_arg \<Rightarrow> unit action" where
  "replace_config E arg d =
     (case arg of
        NoArg \<Rightarrow> (Inr (), d)
      | ConfigObject c \<Rightarrow> (Inr (), d\<lparr>config := c, config_deleted := False\<rparr>)
      | Dict props \<Rightarrow>
          (case Config_new E (Some props) of
             Inl e \<Rightarrow> (Inl e, d\<lparr>config_deleted := True\<rparr>)
           | Inr c \<Rightarrow> (Inr (), d\<lparr>config := c, config_deleted := False\<rparr>)))"

definition init_chain :: "'a env_scheme \<Rightarrow> config_arg \<Rightarrow> unit action" where
  "init_chain E arg =
     await (replace_config E arg) (\<lambda>u.
     await (init_config E) (\<lambda>u.
     await (init_fe E) (\<lambda>u.
     await (init_feat E) (\<lambda>u.
     await (init_acmod E) (\<lambda>u.
     await (load_acmod_files E) (\<lambda>u.
     await (init_dict E) (\<lambda>u.
     await (init_grammar E) (\<lambda>u d'.
       (Inr (), d'\<lparr>initialized := True\<rparr>)))))))))"

definition initialize :: "'a env_scheme \<Rightarrow> config_arg \<Rightarrow> unit action" where
  "initialize E arg d =
     (if ps d = 0 then (Inl (Error ''Decoder was somehow not constructed (ps==0)''), d)
      else init_chain E arg d)"

subsection \<open>Operations on an initialized decoder\<close>

definition assert_initialized :: "unit action" where
  "assert_initialized d =
     (if \<not> initialized d then (Inl (Error ''Decoder not yet initialized''), d) else (Inr (), d))"

definition reinitialize_audio :: "'a env_scheme \<Rightarrow> unit action" where
  "reinitialize_audio E =
     await assert_initialized (\<lambda>u.
     await (native E Ps_reinit_fe) (\<lambda>rv. ret ()))"

definition start :: "'a env_scheme \<Rightarrow> unit action" where
  "start E =
     await assert_initialized (\<lambda>u.
     await (native E Ps_start_utt) (\<lambda>rv.
       if rv < 0 then throw (Error ''Failed to start utterance processing'') else ret ()))"

definition stop :: "'a env_scheme \<Rightarrow> unit action" where
  "stop E =
     await assert_initialized (\<lambda>u.
     await (native E Ps_end_utt) (\<lambda>rv.
       if rv < 0 then throw (Error ''Failed to stop utterance processing'') else ret ()))"

text \<open>The audio is a \<open>Float32Array\<close>: four bytes an element, so the sample count is its length.\<close>

definition process :: "'a env_scheme \<Rightarrow> real list \<Rightarrow> bool \<Rightarrow> bool \<Rightarrow> int action" where
  "process E pcm no_search full_utt =
     await assert_initialized (\<lambda>u.
     await (native E (Ps_process_float32 pcm (int (length pcm)) no_search full_utt)) (\<lambda>rv.
       if rv < 0 then throw (Error ''Utterance processing failed'') else ret rv))"

definition get_hyp :: "'a env_scheme \<Rightarrow> string action" where
  "get_hyp E =
     await assert_initialized (\<lambda>u d. (Inr (ps_get_hyp E (calls d)), d))"

text \<open>A quotient of two integers as a JavaScript number: division by zero does not throw.\<close>

datatype js_number = Finite real | PosInfinity | NegInfinity | NaN

definition js_divide :: "int \<Rightarrow> int \<Rightarrow> js_number" where
  "js_divide a b =
     (if b \<noteq> 0 then Finite (real_of_int a / real_of_int b)
      else if a > 0 then PosInfinity else if a < 0 then NegInfinity else NaN)"

record seg_item =
  seg_word :: string
  seg_start :: js_number
  seg_end :: js_number

definition get_hypseg :: "'a env_scheme \<Rightarrow> seg_item list action" where
  "get_hypseg E =
     await assert_initialized (\<lambda>u d.
       (let frate = cmd_ln_int_r (config d) ''-frate'' in
        (Inr (map (\<lambda>(w, start_frame, end_frame).
                     \<lparr>seg_word = w, seg_start = js_divide start_frame frate,
                      seg_end = js_divide end_frame frate\<rparr>)
                  (ps_seg_iter E (calls d))), d)))"

definition lookup_word :: "'a env_scheme \<Rightarrow> string \<Rightarrow> jsval action" where
  "lookup_word E word =
     await assert_initialized (\<lambda>u d.
       (case ps_lookup_word E (calls d) (allocateUTF8OnStack word) of
          None \<Rightarrow> (Inr JNull, d)
        | Some cpron \<Rightarrow> (Inr (JString cpron), d)))"

definition add_word :: "'a env_scheme \<Rightarrow> string \<Rightarrow> string \<Rightarrow> bool \<Rightarrow> int action" where
  "add_word E word pron update =
     await assert_initialized (\<lambda>u.
     await (native E (Ps_add_word (allocateUTF8OnStack word) (allocateUTF8OnStack pron) update)) (\<lambda>w.
       if w < 0
       then throw (Error (''Failed to add word '' @ word @ '' with pronunciation '' @ pron
                          @ '' to the dictionary.''))
       else ret w))"

text \<open>
  A transition passed to \<open>create_fsg\<close> is an object with the properties \<open>from\<close> and \<open>to\<close>
  and, optionally, \<open>prob\<close> and \<open>word\<close>. The method returns the number 0 or a grammar
  object that holds the pointer to the automaton.
\<close>

record transition =
  t_from :: nat
  t_to :: nat
  t_prob :: "real option"
  t_word :: "string option"

datatype js_grammar = Zero | Grammar nat

fun max_state :: "nat \<Rightarrow> transition list \<Rightarrow> nat" where
  "max_state n [] = n"
| "max_state n (t # ts) = max_state (max (max n (t_from t)) (t_to t)) ts"

fun add_transitions :: "'a env_scheme \<Rightarrow> nat \<Rightarrow> transition list \<Rightarrow> heap \<Rightarrow> bool \<times> heap" where
  "add_transitions E fsg [] h = (True, h)"
| "add_transitions E fsg (t # ts) h =
     (let logprob = (case t_prob t of None \<Rightarrow> 0 | Some p \<Rightarrow> logmath_log E p) in
      case t_word t of
        Some w \<Rightarrow>
          (let (w_id, h1) = fsg_model_word_add E h fsg (allocateUTF8OnStack w) in
           if w_id = - 1 then (False, fsg_model_free h1 fsg)
           else add_transitions E fsg ts (fsg_model_trans_add h1 fsg (t_from t) (t_to t) logprob w_id))
      | None \<Rightarrow>
          add_transitions E fsg ts (fsg_model_null_trans_add h fsg (t_from t) (t_to t) logprob))"

text \<open>
  The word texts of a list of transitions, in order, as the native side receives them,
  and a list reduced to the first occurrence of each of its elements.
\<close>

fun words_of :: "transition list \<Rightarrow> string list" where
  "words_of [] = []"
| "words_of (t # ts) =
     (case t_word t of None \<Rightarrow> words_of ts | Some w \<Rightarrow> allocateUTF8OnStack w # words_of ts)"

definition first_occurrences :: "'a list \<Rightarrow> 'a list" where
  "first_occurrences xs = rev (remdups (rev xs))"

definition create_fsg ::
  "'a env_scheme \<Rightarrow> string \<Rightarrow> nat \<Rightarrow> nat \<Rightarrow> transition list \<Rightarrow> js_grammar action" where
  "create_fsg E name start_st final_st transitions =
     await assert_initialized (\<lambda>u d.
       (let lw = cmd_ln_float_r (config d) ''-lw'';
            n = max_state 0 transitions + 1;
            (fsg, h1) = fsg_model_init (fsgs d) (allocateUTF8OnStack name) lw n;
            h2 = fsg_set_states h1 fsg start_st final_st;
            (complete, h3) = add_transitions E fsg transitions h2
        in (Inr (if complete then Grammar fsg else Zero), d\<lparr>fsgs := h3\<rparr>)))"

text \<open>
  The transition an automaton should hold for a transition object, given the word table:
  the same endpoints, the log of the probability given (0 without one), and the id of the
  word in the table, absent when the object has no word.
\<close>

definition link_for :: "'a env_scheme \<Rightarrow> string list \<Rightarrow> transition \<Rightarrow> fsg_link" where
  "link_for E table t =
     \<lparr>from_state = t_from t, to_state = t_to t,
      logs2prob = (case t_prob t of None \<Rightarrow> 0 | Some p \<Rightarrow> logmath_log E p),
      wid = (case t_word t of None \<Rightarrow> None
             | Some w \<Rightarrow> fsg_model_word_id table (allocateUTF8OnStack w))\<rparr>"

text \<open>
  The rule that \<open>parse_jsgf\<close> builds the automaton from: the rule of the name given,
  or without a name the first public rule.
\<close>

definition top_rule :: "jsgf_t \<Rightarrow> string option \<Rightarrow> error + jsgf_rule" where
  "top_rule jsgf toprule =
     (case toprule of
        Some name \<Rightarrow>
          (case jsgf_get_rule jsgf (allocateUTF8OnStack name) of
             None \<Rightarrow> Inl (Error (''Failed to find top rule '' @ name))
           | Some r \<Rightarrow> Inr r)
      | None \<Rightarrow>
          (case jsgf_get_public_rule jsgf of
             None \<Rightarrow> Inl (Error ''No public rules found in JSGF'')
           | Some r \<Rightarrow> Inr r))"

definition parse_jsgf :: "'a env_scheme \<Rightarrow> string \<Rightarrow> string option \<Rightarrow> js_grammar action" where
  "parse_jsgf E jsgf_string toprule =
     await assert_initialized (\<lambda>u d.
       (let lw = cmd_ln_float_r (config d) ''-lw'' in
        case jsgf_parse_string E (allocateUTF8OnStack jsgf_string) of
          None \<Rightarrow> (Inl (Error ''Failed to parse JSGF''), d)
        | Some jsgf \<Rightarrow>
            (case top_rule jsgf toprule of
               Inl e \<Rightarrow> (Inl e, d)
             | Inr rule \<Rightarrow>
                 (case jsgf_build_fsg E jsgf rule (ps_get_logmath E) lw of
                    None \<Rightarrow> (Inr (Grammar 0), d)
                  | Some g \<Rightarrow>
                      (let (fsg, h1) = heap_alloc (fsgs d) g
                       in (Inr (Grammar fsg), d\<lparr>fsgs := h1\<rparr>))))))"

definition grammar_pointer :: "js_grammar \<Rightarrow> nat" where
  "grammar_pointer g = (case g of Zero \<Rightarrow> 0 | Grammar p \<Rightarrow> p)"

definition set_fsg :: "'a env_scheme \<Rightarrow> js_grammar \<Rightarrow> unit action" where
  "set_fsg E fsg =
     await assert_initialized (\<lambda>u.
     await (native E (Ps_set_fsg ''_default'' (int (grammar_pointer fsg)))) (\<lambda>rv.
       if rv \<noteq> 0 then throw (Error ''Failed to set FSG in decoder'') else ret ()))"

section \<open>The declared stages of initialization\<close>

datatype stage =
    ConfigResolution | FrontEnd | FeatureModule | AcousticPreInit | ModelDefLoad
  | TransitionMatrixLoad | GaussianLoad | AcousticPostInit | DictionaryLoad | GrammarInstall

definition stage_order :: "stage list" where
  "stage_order =
     [ConfigResolution, FrontEnd, FeatureModule, AcousticPreInit, ModelDefLoad,
      TransitionMatrixLoad, GaussianLoad, AcousticPostInit, DictionaryLoad, GrammarInstall]"

text \<open>
  The stage a call on the native decoder belongs to: the call that performs the stage on
  the handle, or installs what the stage loaded. Configuration resolution ends with two
  calls. The calls of the operations on an initialized decoder belong to no stage.
\<close>

fun stage_of :: "ps_call \<Rightarrow> stage option" where
  "stage_of Ps_init_config = Some ConfigResolution"
| "stage_of Ps_init_cleanup = Some ConfigResolution"
| "stage_of Ps_init_fe = Some FrontEnd"
| "stage_of Ps_init_feat = Some FeatureModule"
| "stage_of Ps_init_acmod_pre = Some AcousticPreInit"
| "stage_of (Set_mdef mdef) = Some ModelDefLoad"
| "stage_of (Set_tmat tmat) = Some TransitionMatrixLoad"
| "stage_of (Load_gmm means variances mixw sendump) = Some GaussianLoad"
| "stage_of Ps_init_acmod_post = Some AcousticPostInit"
| "stage_of Ps_init_dict = Some DictionaryLoad"
| "stage_of Ps_init_grammar = Some GrammarInstall"
| "stage_of Ps_reinit_fe = None"
| "stage_of Ps_start_utt = None"
| "stage_of Ps_end_utt = None"
| "stage_of (Ps_process_float32 pcm n no_search full_utt) = None"
| "stage_of (Ps_add_word word pron update) = None"
| "stage_of (Ps_set_fsg name fsg) = None"

definition call_stages :: "stage list" where
  "call_stages =
     [ConfigResolution, ConfigResolution, FrontEnd, FeatureModule, AcousticPreInit, ModelDefLoad,
      TransitionMatrixLoad, GaussianLoad, AcousticPostInit, DictionaryLoad, GrammarInstall]"

text \<open>
  Whether a recorded call failed, by the test the binding applies to its result: a negative
  status, or a null pointer. The two installing calls return nothing and cannot fail.
\<close>

fun call_failed :: "ps_call \<times> int \<Rightarrow> bool" where
  "call_failed (Ps_init_config, rv) = (rv < 0)"
| "call_failed (Ps_init_cleanup, rv) = (rv < 0)"
| "call_failed (Ps_init_fe, rv) = (rv = 0)"
| "call_failed (Ps_init_feat, rv) = (rv = 0)"
| "call_failed (Ps_init_acmod_pre, rv) = (rv = 0)"
| "call_failed (Set_mdef mdef, rv) = False"
| "call_failed (Set_tmat tmat, rv) = False"
| "call_failed (Load_gmm means variances mixw sendump, rv) = (rv < 0)"
| "call_failed (Ps_init_acmod_post, rv) = (rv < 0)"
| "call_failed (Ps_init_dict, rv) = (rv = 0)"
| "call_failed (Ps_init_grammar, rv) = (rv < 0)"
| "call_failed (Ps_reinit_fe, rv) = False"
| "call_failed (Ps_start_utt, rv) = (rv < 0)"
| "call_failed (Ps_end_utt, rv) = (rv < 0)"
| "call_failed (Ps_process_float32 pcm n no_search full_utt, rv) = (rv < 0)"
| "call_failed (Ps_add_word word pron update, rv) = (rv < 0)"
| "call_failed (Ps_set_fsg name fsg, rv) = (rv \<noteq> 0)"

definition stages_of :: "(ps_call \<times> int) list \<Rightarrow> stage option list" where
  "stages_of new = map (\<lambda>c. stage_of (fst c)) new"

definition all_succeeded :: "(ps_call \<times> int) list \<Rightarrow> bool" where
  "all_succeeded new = list_all (\<lambda>c. \<not> call_failed c) new"

text \<open>
  Proof notions for a part of a method. It is \<open>quiet\<close> when it makes no call on the
  native decoder. It \<open>runs\<close> a list of stages when, returning normally, it has made
  exactly the calls of these stages, all successful, and, throwing, it has made a prefix
  of them of which only the last can have failed, and not all of them successfully. It
  \<open>flags\<close> \<open>b\<close> when it leaves the flag \<open>initialized\<close> alone when it throws, and raises
  it when \<open>b\<close> holds and it returns.
\<close>

definition quiet :: "'a action \<Rightarrow> bool" where
  "quiet f = (\<forall>d. calls (snd (f d)) = calls d)"

definition runs :: "'a action \<Rightarrow> stage list \<Rightarrow> bool" where
  "runs f L =
     (\<forall>d. \<exists>new. calls (snd (f d)) = calls d @ new \<and>
        (case fst (f d) of
           Inr x \<Rightarrow> stages_of new = map Some L \<and> all_succeeded new
         | Inl e \<Rightarrow> prefix (stages_of new) (map Some L) \<and> all_succeeded (butlast new)
                    \<and> \<not> (stages_of new = map Some L \<and> all_succeeded new)))"

definition flags :: "'a action \<Rightarrow> bool \<Rightarrow> bool" where
  "flags f b =
     (\<forall>d. initialized (snd (f d)) = (case fst (f d) of Inr x \<Rightarrow> initialized d \<or> b | Inl e \<Rightarrow> initialized d))"

section \<open>Diagnostics: the logging macros of \<open>err.h\<close>\<close>

datatype err_lvl_t = ERR_DEBUG | ERR_INFO | ERR_WARN | ERR_ERROR | ERR_FATAL | ERR_MAX

text \<open>
  A macro either returns control to the code that follows it, or ends the process through
  \<open>exit\<close> with a status. \<open>EXIT_FAILURE\<close> is the C library's constant, 1 on the
  supported platforms.
\<close>

datatype 'a control = Returns 'a | Exits int

definition EXIT_FAILURE :: int where "EXIT_FAILURE = 1"

text \<open>
  \<open>err_msg\<close> and \<open>err_msg_system\<close> are only declared in the header; they are parameters
  here, acting on a diagnostic stream of any type \<open>'s\<close>. Their arguments are the level,
  the source position (\<open>FILELINE\<close>, or \<open>NULL, 0\<close>) and the formatted message.
\<close>

type_synonym 's err_fn = "'s \<Rightarrow> err_lvl_t \<Rightarrow> string option \<Rightarrow> int \<Rightarrow> string \<Rightarrow> 's"

definition E_FATAL :: "'s err_fn \<Rightarrow> 's \<Rightarrow> string \<Rightarrow> int \<Rightarrow> string \<Rightarrow> 's \<times> unit control" where
  "E_FATAL err_msg st file line msg = (err_msg st ERR_FATAL (Some file) line msg, Exits EXIT_FAILURE)"

definition E_FATAL_SYSTEM :: "'s err_fn \<Rightarrow> 's \<Rightarrow> string \<Rightarrow> int \<Rightarrow> string \<Rightarrow> 's \<times> unit control" where
  "E_FATAL_SYSTEM err_msg_system st file line msg =
     (err_msg_system st ERR_FATAL (Some file) line msg, Exits EXIT_FAILURE)"

definition E_SYSCALL ::
  "'s err_fn \<Rightarrow> 's \<Rightarrow> bool \<Rightarrow> string \<Rightarrow> int \<Rightarrow> string \<Rightarrow> 's \<times> unit control" where
  "E_SYSCALL err_msg_system st stmt file line msg =
     (if stmt then E_FATAL_SYSTEM err_msg_system st file line msg else (st, Returns ()))"

definition E_ERROR_SYSTEM :: "'s err_fn \<Rightarrow> 's \<Rightarrow> string \<Rightarrow> int \<Rightarrow> string \<Rightarrow> 's \<times> unit control" where
  "E_ERROR_SYSTEM err_msg_system st file line msg =
     (err_msg_system st ERR_ERROR (Some file) line msg, Returns ())"

definition E_ERROR :: "'s err_fn \<Rightarrow> 's \<Rightarrow> string \<Rightarrow> int \<Rightarrow> string \<Rightarrow> 's \<times> unit control" where
  "E_ERROR err_msg st file line msg = (err_msg st ERR_ERROR (Some file) line msg, Returns ())"

definition E_WARN :: "'s err_fn \<Rightarrow> 's \<Rightarrow> string \<Rightarrow> int \<Rightarrow> string \<Rightarrow> 's \<times> unit control" where
  "E_WARN err_msg st file line msg = (err_msg st ERR_WARN (Some file) line msg, Returns ())"

definition E_INFO :: "'s err_fn \<Rightarrow> 's \<Rightarrow> string \<Rightarrow> int \<Rightarrow> string \<Rightarrow> 's \<times> unit control" where
  "E_INFO err_msg st file line msg = (err_msg st ERR_INFO (Some file) line msg, Returns ())"

definition E_INFOCONT :: "'s err_fn \<Rightarrow> 's \<Rightarrow> string \<Rightarrow> 's \<times> unit control" where
  "E_INFOCONT err_msg st msg = (err_msg st ERR_INFO None 0 msg, Returns ())"

text \<open>
  The code that follows a macro in the calling function runs only when the macro returns;
  after \<open>exit\<close> nothing of the caller runs.
\<close>

definition and_then :: "'s \<times> 'a control \<Rightarrow> ('a \<Rightarrow> 's \<Rightarrow> 's \<times> 'b control) \<Rightarrow> 's \<times> 'b control" where
  "and_then m k = (case m of (st, Returns x) \<Rightarrow> k x st | (st, Exits status) \<Rightarrow> (st, Exits status))"

text \<open>A diagnostic stream that keeps every entry, for concrete runs.\<close>

definition keep_entry :: "(err_lvl_t \<times> string) list err_fn" where
  "keep_entry st lvl file line msg = st @ [(lvl, msg)]"

section \<open>Concrete inputs for the examples\<close>

text \<open>
  A store with the parameters the binding reads, each under the key the native library
  declares it with; a model \<open>en-us\<close> whose parameter file holds one known and one unknown
  key and that has no \<open>sendump\<close> file; a native library whose calls all succeed; and a
  decoder as its constructor leaves it.
\<close>

definition demo_store :: cmd_ln_t where
  "demo_store =
     [''-hmm'' \<mapsto> (ARG_STRING, CStr (Some ''en-us'')),
      ''_mdef'' \<mapsto> (ARG_STRING, CStr None),
      ''-featparams'' \<mapsto> (ARG_STRING, CStr None),
      ''-tmat'' \<mapsto> (ARG_STRING, CStr None),
      ''-mean'' \<mapsto> (ARG_STRING, CStr None),
      ''-var'' \<mapsto> (ARG_STRING, CStr None),
      ''-sendump'' \<mapsto> (ARG_STRING, CStr None),
      ''-mixw'' \<mapsto> (ARG_STRING, CStr None),
      ''-tmatfloor'' \<mapsto> (ARG_FLOATING, CFloat (1 / 10000)),
      ''-lw'' \<mapsto> (ARG_FLOATING, CFloat 6),
      ''-lowerf'' \<mapsto> (ARG_FLOATING, CFloat 133),
      ''-frate'' \<mapsto> (ARG_INTEGER, CInt 100)]"

definition demo_boundary :: boundary where
  "demo_boundary = \<lparr> other_as_string = (\<lambda>v. []), as_double = (\<lambda>v. 0), as_long = (\<lambda>v. 0) \<rparr>"

definition demo_grammar :: jsgf_t where
  "demo_grammar =
     [\<lparr>rule_name = ''digit'', is_public = False\<rparr>, \<lparr>rule_name = ''number'', is_public = True\<rparr>]"

definition demo_env :: env where
  "demo_env =
     \<lparr> other_as_string = (\<lambda>v. []),
       as_double = (\<lambda>v. if v = JString ''130'' then 130 else 0),
       as_long = (\<lambda>v. 0),
       other_ToString = (\<lambda>v. []),
       ps_args = demo_store,
       defaultModel = JString ''en-us'',
       model_paths = (\<lambda>name. None),
       RUNNING_ON_WEB = False,
       fetch = (\<lambda>url. Inl (Error ''fetch is not defined'')),
       readFile_utf8 = (\<lambda>path. Inr ''-lowerf 130 -bogus 1''),
       matchAll_line_re = (\<lambda>text. [text]),
       trim = (\<lambda>line. line),
       matchAll_arg_re = (\<lambda>line. [''-lowerf'', ''130'', ''-bogus'', ''1'']),
       readFile = (\<lambda>path. if path = JString ''en-us/sendump'' then Inl (Error ''ENOENT'') else Inr 16),
       malloc = (\<lambda>n. 1024),
       s3file_init = (\<lambda>addr n. 2048),
       ps_init = 1,
       ps_rv = (\<lambda>c history k. 1),
       ps_get_logmath = 7,
       bin_mdef_read_s3file = (\<lambda>s3f. 3),
       tmat_init_s3file = (\<lambda>s3f lmath tpfloor. 4),
       ps_get_hyp = (\<lambda>history. []),
       ps_seg_iter = (\<lambda>history. []),
       ps_lookup_word = (\<lambda>history w. None),
       logmath_log = (\<lambda>p. if p = 1 then 0 else - 1),
       word_add_fails = (\<lambda>table w. False),
       jsgf_parse_string = (\<lambda>text. Some demo_grammar),
       jsgf_build_fsg = (\<lambda>jsgf rule lmath lw. None) \<rparr>"

definition demo_env_no_feat :: env where
  "demo_env_no_feat = demo_env\<lparr>ps_rv := (\<lambda>c history k. if k = Ps_init_feat then 0 else 1)\<rparr>"

definition demo_heap :: heap where
  "demo_heap = \<lparr> cells = (\<lambda>p. None), brk = 0 \<rparr>"

definition demo_decoder :: Decoder where
  "demo_decoder =
     \<lparr> config = demo_store, config_deleted = False, initialized = False, ps = 1,
       calls = [], reads = [], fsgs = demo_heap \<rparr>"

text \<open>
  The decoder once initialized, the two transitions of the spec's example, and a native
  library that refuses the word \<open>b\<close>.
\<close>

definition demo_ready :: Decoder where
  "demo_ready = demo_decoder\<lparr>initialized := True\<rparr>"

definition demo_transitions :: "transition list" where
  "demo_transitions =
     [\<lparr>t_from = 0, t_to = 1, t_prob = Some 1, t_word = Some ''a''\<rparr>,
      \<lparr>t_from = 1, t_to = 2, t_prob = Some 1, t_word = Some ''b''\<rparr>]"

definition demo_env_refusing :: env where
  "demo_env_refusing = demo_env\<lparr>word_add_fails := (\<lambda>table w. w = ''b'')\<rparr>"



section \<open>Properties of the configuration interface\<close>

lemma cstr_Cons:
  "allocateUTF8OnStack (k # ks) = (if k = CHR 0x00 then [] else k # allocateUTF8OnStack ks)"
  by (simp add: allocateUTF8OnStack_def)

lemma cstr_Nil: "allocateUTF8OnStack [] = []"
  by (simp add: allocateUTF8OnStack_def)

lemma cstr_no_nul: "CHR 0x00 \<notin> set s \<Longrightarrow> allocateUTF8OnStack s = s"
  by (auto simp: allocateUTF8OnStack_def)

lemma normalize_key_name:
  assumes "c (allocateUTF8OnStack (normalize_key c key)) = Some e"
  shows "normalize_ckey (allocateUTF8OnStack key) \<in> parameter_names c"
proof (cases key)
  case Nil
  with assms have "c [] = Some e" by (simp add: normalize_key_def cstr_Nil)
  then have "normalize_ckey [] \<in> parameter_names c"
    unfolding parameter_names_def by (intro imageI) auto
  with Nil show ?thesis by (simp add: cstr_Nil)
next
  case (Cons k0 rest)
  let ?n = "allocateUTF8OnStack (normalize_key c key)"
  have dom: "?n \<in> dom c" using assms by auto
  have eq: "normalize_ckey ?n = normalize_ckey (allocateUTF8OnStack key)"
    using Cons
    by (auto simp: normalize_key_def cstr_Cons cstr_Nil normalize_ckey_def Let_def Config_has_def
        split: if_splits list.splits)
  show ?thesis unfolding parameter_names_def using dom eq by (metis imageI)
qed

text \<open>
  C7. A key that names no parameter of the store, whatever prefix it is written with, is
  refused by both \<open>set\<close> and \<open>get\<close> with a \<open>ReferenceError\<close>, and \<open>set\<close> hands back the
  store as it was (\<open>get\<close> calls no setter of the store at all).
\<close>

theorem Config_unknown_key:
  assumes "normalize_ckey (allocateUTF8OnStack key) \<notin> parameter_names c"
  shows "Config_set B c key val = (Inl (ReferenceError (''Unknown cmd_ln parameter '' @ key)), c)
       \<and> Config_get c key = Inl (ReferenceError (''Unknown cmd_ln parameter '' @ key))"
proof -
  have "c (allocateUTF8OnStack (normalize_key c key)) = None"
    using assms normalize_key_name [of c key]
    by (cases "c (allocateUTF8OnStack (normalize_key c key))") auto
  then have "cmd_ln_type_r c (allocateUTF8OnStack (normalize_key c key)) = 0"
    by (simp add: cmd_ln_type_r_def)
  then show ?thesis by (simp add: Config_set_def Config_get_def Let_def)
qed

theorem Config_unknown_key_witness:
  "normalize_ckey (allocateUTF8OnStack ''nosuch'') \<notin> parameter_names demo_store
   \<and> Config_set demo_boundary demo_store ''nosuch'' (JNumber 1)
       = (Inl (ReferenceError ''Unknown cmd_ln parameter nosuch''), demo_store)
   \<and> Config_get demo_store ''nosuch'' = Inl (ReferenceError ''Unknown cmd_ln parameter nosuch'')"
proof -
  have h: "normalize_ckey (allocateUTF8OnStack ''nosuch'') \<notin> parameter_names demo_store"
    by (simp add: parameter_names_def demo_store_def normalize_ckey_def cstr_Cons cstr_Nil)
  from Config_unknown_key [OF h, of demo_boundary "JNumber 1"] h show ?thesis by simp
qed

lemma cmd_ln_set_r_None: "(cmd_ln_set_r c k v x = None) = (c x = None)"
  by (simp add: cmd_ln_set_r_def split: option.splits)

lemma Config_set_None: "(snd (Config_set B c key v) x = None) = (c x = None)"
  by (simp add: Config_set_def Let_def cmd_ln_set_str_r_def cmd_ln_set_float_r_def
      cmd_ln_set_int_r_def cmd_ln_set_r_None)

lemma Config_has_cong: "(\<And>x. (c' x = None) = (c x = None)) \<Longrightarrow> Config_has c' = Config_has c"
  by (simp add: Config_has_def cmd_ln_exists_r_def fun_eq_iff)

lemma normalize_key_cong:
  "(\<And>x. (c' x = None) = (c x = None)) \<Longrightarrow> normalize_key c' key = normalize_key c key"
proof -
  assume "\<And>x. (c' x = None) = (c x = None)"
  then have "Config_has c' = Config_has c" by (rule Config_has_cong)
  then show ?thesis unfolding normalize_key_def by (simp add: Let_def split: list.splits)
qed

lemma normalize_key_forms:
  assumes "b \<noteq> []" "hd b \<noteq> CHR ''_''" "hd b \<noteq> CHR ''-''" "CHR 0x00 \<notin> set b"
    and "c k \<noteq> None"
    and "k = CHR ''_'' # b \<or> (k = CHR ''-'' # b \<and> c (CHR ''_'' # b) = None)"
    and "f = k \<or> f = b \<or> f = CHR ''-'' # b"
  shows "normalize_key c f = k"
  using assms
  by (cases b) (auto simp: normalize_key_def Config_has_def cmd_ln_exists_r_def cstr_Cons cstr_no_nul Let_def)

text \<open>
  C10, as the code has it. The claim that all three spellings of a key reach the same
  parameter fails for a parameter stored under a dash: the underscore spelling is looked
  up as written.
\<close>

theorem Config_underscore_form_counterexample:
  "Config_get demo_store ''hmm'' = Inr (JString ''en-us'')
   \<and> Config_get demo_store ''-hmm'' = Inr (JString ''en-us'')
   \<and> Config_get demo_store ''_hmm'' = Inl (ReferenceError ''Unknown cmd_ln parameter _hmm'')"
  by (simp add: Config_get_def demo_store_def normalize_key_def Config_has_def cmd_ln_exists_r_def
      cstr_Cons cstr_Nil cmd_ln_type_r_def ARG_STRING_def cmd_ln_str_r_def Let_def)

lemma int_or_bool_flag:
  "(ty AND (ARG_INTEGER OR ARG_BOOLEAN) \<noteq> 0) = (ty AND ARG_INTEGER \<noteq> 0 \<or> ty AND ARG_BOOLEAN \<noteq> 0)"
  by (simp add: bit.conj_disj_distrib or_eq_0_iff)

text \<open>
  C10, amended. Let \<open>b\<close> be a parameter name without prefix and \<open>k\<close> the key it is stored
  under: the underscore key, or the dash key when no underscore key exists. The spellings
  \<open>k\<close>, \<open>b\<close> and dash-\<open>b\<close> all normalise to \<open>k\<close>, and \<open>set\<close> through any of them is
  the same update and succeeds. Then \<open>get\<close> through any of them returns the value written,
  as the store received it: for a string parameter the string passed to C, which for a
  string value is the string up to its first zero byte, so the string itself when it has
  none; for a floating parameter the value as a \<open>double\<close>; for an integer parameter the
  value as a \<open>long\<close>; for a boolean parameter whether that \<open>long\<close> is not 0. For a
  parameter stored under a dash, the underscore spelling raises \<open>ReferenceError\<close>.
\<close>

theorem Config_prefix_forms:
  assumes body: "b \<noteq> []" "hd b \<noteq> CHR ''_''" "hd b \<noteq> CHR ''-''" "CHR 0x00 \<notin> set b"
    and stored: "c k = Some (ty, old)"
    and kind: "ty AND ARG_STRING \<noteq> 0 \<or> ty AND ARG_FLOATING \<noteq> 0 \<or> ty AND ARG_INTEGER \<noteq> 0
                 \<or> ty AND ARG_BOOLEAN \<noteq> 0"
    and key: "k = CHR ''_'' # b \<or> (k = CHR ''-'' # b \<and> c (CHR ''_'' # b) = None)"
    and f1: "f1 = k \<or> f1 = b \<or> f1 = CHR ''-'' # b"
    and f2: "f2 = k \<or> f2 = b \<or> f2 = CHR ''-'' # b"
  shows "normalize_key c f1 = k
       \<and> Config_set B c f1 v = Config_set B c k v
       \<and> fst (Config_set B c f1 v) = Inr True
       \<and> Config_get (snd (Config_set B c f1 v)) f2 = Config_get (snd (Config_set B c k v)) k
       \<and> Config_get (snd (Config_set B c f1 v)) f2 =
           Inr (if ty AND ARG_STRING \<noteq> 0 then JString (string_arg B v)
                else if ty AND ARG_FLOATING \<noteq> 0 then JNumber (as_double B v)
                else if ty AND ARG_INTEGER \<noteq> 0 then JNumber (of_int (as_long B v))
                else JBoolean (as_long B v \<noteq> 0))
       \<and> string_arg B (JString s) = allocateUTF8OnStack s
       \<and> (CHR 0x00 \<notin> set s \<longrightarrow> string_arg B (JString s) = s)
       \<and> (k = CHR ''-'' # b \<longrightarrow>
            Config_get c (CHR ''_'' # b) = Inl (ReferenceError (''Unknown cmd_ln parameter '' @ CHR ''_'' # b)))"
proof -
  have kk: "k = k \<or> k = b \<or> k = CHR ''-'' # b" by simp
  have ck: "c k \<noteq> None" using stored by simp
  have n1: "normalize_key c f1 = k"
    by (rule normalize_key_forms [OF body ck key f1])
  have nk: "normalize_key c k = k"
    by (rule normalize_key_forms [OF body ck key kk])
  have nul: "CHR 0x00 \<notin> set k" using key body by auto
  have ty0: "ty \<noteq> 0" using kind by auto
  have set_eq: "Config_set B c f1 w = Config_set B c k w" for w
    using ty0 stored by (simp add: Config_set_def n1 nk Let_def cstr_no_nul [OF nul] cmd_ln_type_r_def)
  have ok: "fst (Config_set B c f1 v) = Inr True"
    using ty0 stored kind
    by (auto simp add: Config_set_def n1 Let_def cstr_no_nul [OF nul] cmd_ln_type_r_def int_or_bool_flag)
  define c' where "c' = snd (Config_set B c k v)"
  have dom': "\<And>x. (c' x = None) = (c x = None)"
    unfolding c'_def by (rule Config_set_None)
  have ck': "c' k \<noteq> None" using dom' ck by simp
  have key': "k = CHR ''_'' # b \<or> (k = CHR ''-'' # b \<and> c' (CHR ''_'' # b) = None)"
    using key dom' by auto
  have n2': "normalize_key c' f2 = k"
    by (rule normalize_key_forms [OF body ck' key' f2])
  have nk': "normalize_key c' k = k"
    by (rule normalize_key_forms [OF body ck' key' kk])
  have c'k: "c' k = Some (ty, if ty AND ARG_STRING \<noteq> 0 then CStr (Some (string_arg B v))
                              else if ty AND ARG_FLOATING \<noteq> 0 then CFloat (as_double B v)
                              else CInt (as_long B v))"
    using stored kind ty0 unfolding c'_def
    by (auto simp add: Config_set_def Let_def nk cstr_no_nul [OF nul] cmd_ln_type_r_def
        cmd_ln_set_str_r_def cmd_ln_set_float_r_def cmd_ln_set_int_r_def cmd_ln_set_r_def
        int_or_bool_flag)
  have get_at: "Config_get c' x =
           Inr (if ty AND ARG_STRING \<noteq> 0 then JString (string_arg B v)
                else if ty AND ARG_FLOATING \<noteq> 0 then JNumber (as_double B v)
                else if ty AND ARG_INTEGER \<noteq> 0 then JNumber (of_int (as_long B v))
                else JBoolean (as_long B v \<noteq> 0))"
    if "normalize_key c' x = k" for x
    using kind ty0 that
    by (auto simp add: Config_get_def Let_def cstr_no_nul [OF nul] cmd_ln_type_r_def c'k
        cmd_ln_str_r_def cmd_ln_float_r_def cmd_ln_int_r_def)
  have get_eq: "Config_get c' f2 = Config_get c' k"
    by (simp add: get_at [OF n2'] get_at [OF nk'])
  note get_k = get_at [OF nk']
  have s1: "string_arg B (JString s) = allocateUTF8OnStack s"
    by (simp add: string_arg_def)
  have s2: "CHR 0x00 \<notin> set s \<longrightarrow> string_arg B (JString s) = s"
    by (simp add: string_arg_def cstr_no_nul)
  have under0: "Config_get c (CHR ''_'' # b) = Inl (ReferenceError (''Unknown cmd_ln parameter '' @ CHR ''_'' # b))"
    if "k = CHR ''-'' # b"
    using that key body
    by (simp add: Config_get_def normalize_key_def Let_def cstr_Cons cstr_no_nul cmd_ln_type_r_def)
  have under: "k = CHR ''-'' # b \<longrightarrow>
      Config_get c (CHR ''_'' # b) = Inl (ReferenceError (''Unknown cmd_ln parameter '' @ CHR ''_'' # b))"
    using under0 by blast
  have g1: "Config_get (snd (Config_set B c f1 v)) f2 = Config_get (snd (Config_set B c k v)) k"
    using get_eq by (simp add: set_eq c'_def)
  have g2: "Config_get (snd (Config_set B c f1 v)) f2 =
           Inr (if ty AND ARG_STRING \<noteq> 0 then JString (string_arg B v)
                else if ty AND ARG_FLOATING \<noteq> 0 then JNumber (as_double B v)
                else if ty AND ARG_INTEGER \<noteq> 0 then JNumber (of_int (as_long B v))
                else JBoolean (as_long B v \<noteq> 0))"
    using get_eq get_k by (simp add: set_eq c'_def)
  show ?thesis
    by (intro conjI n1 set_eq ok g1 g2 s1 s2 under)
qed


theorem Config_prefix_forms_witness:
  "normalize_key demo_store ''hmm'' = ''-hmm''
   \<and> Config_get (snd (Config_set demo_boundary demo_store ''hmm'' (JString ''fr-fr''))) ''-hmm''
       = Inr (JString ''fr-fr'')
   \<and> Config_get (snd (Config_set demo_boundary demo_store ''-hmm'' (JString [CHR ''a'', CHR 0x00, CHR ''b'']))) ''hmm''
       = Inr (JString ''a'')
   \<and> Config_get (snd (Config_set demo_env demo_store ''lowerf'' (JString ''130''))) ''-lowerf''
       = Inr (JNumber 130)
   \<and> Config_get demo_store ''_hmm'' = Inl (ReferenceError ''Unknown cmd_ln parameter _hmm'')"
proof -
  have b: "''hmm'' \<noteq> []" "hd ''hmm'' \<noteq> CHR ''_''" "hd ''hmm'' \<noteq> CHR ''-''" "CHR 0x00 \<notin> set ''hmm''"
    by simp_all
  have st: "demo_store ''-hmm'' = Some (ARG_STRING, CStr (Some ''en-us''))"
    by (simp add: demo_store_def)
  have key: "''-hmm'' = CHR ''_'' # ''hmm'' \<or> (''-hmm'' = CHR ''-'' # ''hmm'' \<and> demo_store (CHR ''_'' # ''hmm'') = None)"
    by (simp add: demo_store_def)
  have fl: "ARG_STRING AND ARG_STRING \<noteq> 0 \<or> ARG_STRING AND ARG_FLOATING \<noteq> 0
      \<or> ARG_STRING AND ARG_INTEGER \<noteq> 0 \<or> ARG_STRING AND ARG_BOOLEAN \<noteq> 0"
    by (simp add: ARG_STRING_def)
  have bare: "''hmm'' = ''-hmm'' \<or> ''hmm'' = ''hmm'' \<or> ''hmm'' = CHR ''-'' # ''hmm''" by simp
  have dash: "''-hmm'' = ''-hmm'' \<or> ''-hmm'' = ''hmm'' \<or> ''-hmm'' = CHR ''-'' # ''hmm''" by simp
  have g: "ARG_STRING AND ARG_STRING \<noteq> 0" by (simp add: ARG_STRING_def)
  note T = Config_prefix_forms [OF b st fl key bare dash,
      where B = demo_boundary and v = "JString ''fr-fr''" and s = "''fr-fr''"]
  note U = Config_prefix_forms [OF b st fl key dash bare,
      where B = demo_boundary and v = "JString [CHR ''a'', CHR 0x00, CHR ''b'']"
      and s = "[CHR ''a'', CHR 0x00, CHR ''b'']"]
  have t1: "normalize_key demo_store ''hmm'' = ''-hmm''"
    using T by blast
  have t2: "Config_get (snd (Config_set demo_boundary demo_store ''hmm'' (JString ''fr-fr''))) ''-hmm''
       = Inr (JString ''fr-fr'')"
  proof -
    have "Config_get (snd (Config_set demo_boundary demo_store ''hmm'' (JString ''fr-fr''))) ''-hmm''
       = Inr (if ARG_STRING AND ARG_STRING \<noteq> 0 then JString (string_arg demo_boundary (JString ''fr-fr''))
              else if ARG_STRING AND ARG_FLOATING \<noteq> 0 then JNumber (as_double demo_boundary (JString ''fr-fr''))
              else if ARG_STRING AND ARG_INTEGER \<noteq> 0 then JNumber (of_int (as_long demo_boundary (JString ''fr-fr'')))
              else JBoolean (as_long demo_boundary (JString ''fr-fr'') \<noteq> 0))"
      using T by blast
    moreover have "CHR 0x00 \<notin> set ''fr-fr'' \<longrightarrow> string_arg demo_boundary (JString ''fr-fr'') = ''fr-fr''"
      using T by blast
    ultimately show ?thesis by (simp add: ARG_STRING_def)
  qed
  have t3: "Config_get (snd (Config_set demo_boundary demo_store ''-hmm'' (JString [CHR ''a'', CHR 0x00, CHR ''b'']))) ''hmm''
       = Inr (JString ''a'')"
  proof -
    have "Config_get (snd (Config_set demo_boundary demo_store ''-hmm'' (JString [CHR ''a'', CHR 0x00, CHR ''b'']))) ''hmm''
       = Inr (if ARG_STRING AND ARG_STRING \<noteq> 0
              then JString (string_arg demo_boundary (JString [CHR ''a'', CHR 0x00, CHR ''b'']))
              else if ARG_STRING AND ARG_FLOATING \<noteq> 0
              then JNumber (as_double demo_boundary (JString [CHR ''a'', CHR 0x00, CHR ''b'']))
              else if ARG_STRING AND ARG_INTEGER \<noteq> 0
              then JNumber (of_int (as_long demo_boundary (JString [CHR ''a'', CHR 0x00, CHR ''b''])))
              else JBoolean (as_long demo_boundary (JString [CHR ''a'', CHR 0x00, CHR ''b'']) \<noteq> 0))"
      using U by blast
    moreover have "string_arg demo_boundary (JString [CHR ''a'', CHR 0x00, CHR ''b''])
       = allocateUTF8OnStack [CHR ''a'', CHR 0x00, CHR ''b'']"
      using U by blast
    moreover have "allocateUTF8OnStack [CHR ''a'', CHR 0x00, CHR ''b''] = ''a''"
      by (simp add: cstr_Cons cstr_Nil)
    ultimately show ?thesis by (simp add: ARG_STRING_def)
  qed
  have lb: "''lowerf'' \<noteq> []" "hd ''lowerf'' \<noteq> CHR ''_''" "hd ''lowerf'' \<noteq> CHR ''-''"
      "CHR 0x00 \<notin> set ''lowerf''"
    by simp_all
  have lst: "demo_store ''-lowerf'' = Some (ARG_FLOATING, CFloat 133)"
    by (simp add: demo_store_def)
  have lkey: "''-lowerf'' = CHR ''_'' # ''lowerf''
      \<or> (''-lowerf'' = CHR ''-'' # ''lowerf'' \<and> demo_store (CHR ''_'' # ''lowerf'') = None)"
    by (simp add: demo_store_def)
  have lfl: "ARG_FLOATING AND ARG_STRING \<noteq> 0 \<or> ARG_FLOATING AND ARG_FLOATING \<noteq> 0
      \<or> ARG_FLOATING AND ARG_INTEGER \<noteq> 0 \<or> ARG_FLOATING AND ARG_BOOLEAN \<noteq> 0"
    by (simp add: ARG_FLOATING_def)
  have lbare: "''lowerf'' = ''-lowerf'' \<or> ''lowerf'' = ''lowerf'' \<or> ''lowerf'' = CHR ''-'' # ''lowerf''"
    by simp
  have ldash: "''-lowerf'' = ''-lowerf'' \<or> ''-lowerf'' = ''lowerf'' \<or> ''-lowerf'' = CHR ''-'' # ''lowerf''"
    by simp
  note V = Config_prefix_forms [OF lb lst lfl lkey lbare ldash,
      where B = demo_env and v = "JString ''130''" and s = "[]"]
  have t4: "Config_get (snd (Config_set demo_env demo_store ''lowerf'' (JString ''130''))) ''-lowerf''
       = Inr (JNumber 130)"
  proof -
    have "Config_get (snd (Config_set demo_env demo_store ''lowerf'' (JString ''130''))) ''-lowerf''
       = Inr (if ARG_FLOATING AND ARG_STRING \<noteq> 0 then JString (string_arg demo_env (JString ''130''))
              else if ARG_FLOATING AND ARG_FLOATING \<noteq> 0 then JNumber (as_double demo_env (JString ''130''))
              else if ARG_FLOATING AND ARG_INTEGER \<noteq> 0 then JNumber (of_int (as_long demo_env (JString ''130'')))
              else JBoolean (as_long demo_env (JString ''130'') \<noteq> 0))"
      using V by blast
    then show ?thesis
      by (simp add: ARG_FLOATING_def ARG_STRING_def demo_env_def)
  qed
  have t5: "Config_get demo_store ''_hmm'' = Inl (ReferenceError ''Unknown cmd_ln parameter _hmm'')"
    using T by simp
  show ?thesis by (intro conjI t1 t2 t3 t4 t5)
qed

section \<open>Properties of the logging macros\<close>

text \<open>
  C6, as the code has it. The claim that a fatal-level entry comes back to the caller as an
  error fails: \<open>E_FATAL\<close> writes the entry and ends the process with status 1, and the
  caller's continuation (here one that would return 0) never runs.
\<close>

theorem E_FATAL_exits_counterexample:
  "and_then (E_FATAL keep_entry [] ''acmod.c'' 42 ''Failed to load'') (\<lambda>u st. (st, Returns (0::int)))
     = ([(ERR_FATAL, ''Failed to load'')], Exits 1)"
  by (simp add: and_then_def E_FATAL_def keep_entry_def EXIT_FAILURE_def)

text \<open>
  C6, amended. A fatal-level entry (\<open>E_FATAL\<close>, \<open>E_FATAL_SYSTEM\<close>) is written to the
  diagnostic stream at level \<open>ERR_FATAL\<close> and the process then exits with the non-zero
  status \<open>EXIT_FAILURE\<close>: whatever the caller would do next does not run. The entries
  below fatal level (\<open>E_ERROR\<close>, \<open>E_WARN\<close>, \<open>E_INFO\<close>) return to the caller.
\<close>

theorem E_FATAL_exits:
  "and_then (E_FATAL err_msg st file line msg) k
     = (err_msg st ERR_FATAL (Some file) line msg, Exits EXIT_FAILURE)
   \<and> and_then (E_FATAL_SYSTEM err_msg_system st file line msg) k
     = (err_msg_system st ERR_FATAL (Some file) line msg, Exits EXIT_FAILURE)
   \<and> EXIT_FAILURE \<noteq> 0
   \<and> and_then (E_ERROR err_msg st file line msg) k = k () (err_msg st ERR_ERROR (Some file) line msg)
   \<and> and_then (E_WARN err_msg st file line msg) k = k () (err_msg st ERR_WARN (Some file) line msg)
   \<and> and_then (E_INFO err_msg st file line msg) k = k () (err_msg st ERR_INFO (Some file) line msg)"
  by (simp add: and_then_def E_FATAL_def E_FATAL_SYSTEM_def E_ERROR_def E_WARN_def E_INFO_def
      EXIT_FAILURE_def)

section \<open>Properties of configuration resolution\<close>

lemma normalize_key_known:
  assumes "Config_has c key"
  shows "c (allocateUTF8OnStack (normalize_key c key)) \<noteq> None"
  using assms
  by (cases key) (auto simp: normalize_key_def Config_has_def cmd_ln_exists_r_def Let_def cstr_Cons)

lemma Config_set_type:
  "cmd_ln_type_r (snd (Config_set B c key v)) x = cmd_ln_type_r c x"
  by (simp add: Config_set_def Let_def cmd_ln_set_str_r_def cmd_ln_set_float_r_def
      cmd_ln_set_int_r_def cmd_ln_set_r_def cmd_ln_type_r_def split: option.splits)

lemma typed_store_set: "typed_store c \<Longrightarrow> typed_store (snd (Config_set B c key v))"
  by (simp add: typed_store_def Config_set_type Config_set_None)

lemma Config_set_known_ok:
  assumes "typed_store c" "Config_has c key"
  shows "\<exists>ok. fst (Config_set B c key v) = Inr ok"
proof -
  have "c (allocateUTF8OnStack (normalize_key c key)) \<noteq> None"
    using assms(2) by (rule normalize_key_known)
  then have "cmd_ln_type_r c (allocateUTF8OnStack (normalize_key c key)) \<noteq> 0"
    using assms(1) by (simp add: typed_store_def)
  then show ?thesis by (auto simp add: Config_set_def Let_def)
qed

lemma Config_has_set: "Config_has (snd (Config_set B c key v)) = Config_has c"
  by (rule Config_has_cong) (rule Config_set_None)


lemma apply_pairs_dom: "(snd (apply_pairs B c pairs) x = None) = (c x = None)"
proof (induction pairs arbitrary: c)
  case Nil
  show ?case by simp
next
  case (Cons p pairs)
  obtain r c' where s: "Config_set B c (fst p) (JString (snd p)) = (r, c')"
    by (cases "Config_set B c (fst p) (JString (snd p))")
  have d: "(c' x = None) = (c x = None)"
    using Config_set_None [of B c "fst p" "JString (snd p)" x] s by simp
  show ?case
    using s d Cons.IH [of c'] Cons.IH [of c] by (cases r) (simp_all)
qed

lemma apply_pairs_ok:
  "typed_store c \<Longrightarrow> fst (apply_pairs B c pairs) = Inr ()"
proof (induction pairs arbitrary: c)
  case Nil
  show ?case by simp
next
  case (Cons p pairs)
  show ?case
  proof (cases "Config_has c (fst p)")
    case False
    then show ?thesis using Cons by simp
  next
    case True
    obtain r c' where s: "Config_set B c (fst p) (JString (snd p)) = (r, c')"
      by (cases "Config_set B c (fst p) (JString (snd p))")
    obtain ok where ok: "r = Inr ok"
      using Config_set_known_ok [OF Cons.prems True, of B "JString (snd p)"] s by auto
    have "typed_store c'"
      using typed_store_set [OF Cons.prems, of B "fst p" "JString (snd p)"] s by simp
    then show ?thesis using True s ok Cons.IH [of c'] by simp
  qed
qed

lemma find_snoc:
  "find P (xs @ [y]) = (case find P xs of None \<Rightarrow> (if P y then Some y else None) | Some x \<Rightarrow> Some x)"
  by (induction xs) simp_all

lemma Config_set_elsewhere:
  "x \<noteq> stored_key c key \<Longrightarrow> snd (Config_set B c key v) x = c x"
  by (simp add: Config_set_def stored_key_def Let_def cmd_ln_set_str_r_def cmd_ln_set_float_r_def
      cmd_ln_set_int_r_def cmd_ln_set_r_def split: option.splits)

lemma stored_key_set: "stored_key (snd (Config_set B c key v)) k = stored_key c k"
  unfolding stored_key_def
  using normalize_key_cong [of "snd (Config_set B c key v)" c k] Config_set_None [of B c key v]
  by simp


lemma Config_set_again:
  "snd (Config_set B (snd (Config_set B c key v)) k w) (stored_key c k)
     = snd (Config_set B c k w) (stored_key c k)"
proof -
  let ?c1 = "snd (Config_set B c key v)"
  have nk: "normalize_key ?c1 k = normalize_key c k"
    using normalize_key_cong [of ?c1 c k] Config_set_None [of B c key v] by simp
  have ty: "cmd_ln_type_r ?c1 y = cmd_ln_type_r c y" for y
    by (rule Config_set_type)
  show ?thesis
  proof (cases "stored_key c key = stored_key c k")
    case True
    then show ?thesis
      apply (simp add: Config_set_def [of B ?c1] nk ty Let_def)
      apply (simp add: Config_set_def stored_key_def Let_def cmd_ln_set_str_r_def cmd_ln_set_float_r_def
      cmd_ln_set_int_r_def cmd_ln_set_r_def cmd_ln_type_r_def split: option.splits)
      done
  next
    case False
    then have e: "?c1 (stored_key c k) = c (stored_key c k)"
      using Config_set_elsewhere [of "stored_key c k" c key B v] by simp
    show ?thesis
      apply (simp add: Config_set_def [of B ?c1] nk ty Let_def)
      using e
      apply (simp add: Config_set_def [of B c k] stored_key_def Let_def cmd_ln_set_str_r_def cmd_ln_set_float_r_def
      cmd_ln_set_int_r_def cmd_ln_set_r_def cmd_ln_type_r_def split: option.splits)
      done
  qed
qed

lemma merged_Cons:
  "merged B (snd (Config_set B c key v)) entries = merged B c ((key, v) # entries)"
proof
  fix x
  let ?c1 = "snd (Config_set B c key v)"
  have sk: "stored_key ?c1 = stored_key c"
    by (rule ext) (rule stored_key_set)
  show "merged B ?c1 entries x = merged B c ((key, v) # entries) x"
  proof (cases "find (\<lambda>p. stored_key c (fst p) = x) (rev entries)")
    case None
    then show ?thesis
      using Config_set_elsewhere [of x c key B v]
      by (auto simp add: merged_def sk find_snoc)
  next
    case (Some p)
    then have x: "stored_key c (fst p) = x"
      by (auto simp add: find_Some_iff)
    show ?thesis
      using Some Config_set_again [of B c key v "fst p" "snd p"] x
      by (simp add: merged_def sk find_snoc)
  qed
qed

lemma merged_Nil: "merged B c [] = c"
  by (rule ext) (simp add: merged_def)


lemma apply_pairs_merged:
  "typed_store c \<Longrightarrow>
     apply_pairs B c pairs =
       (Inr (), merged B c (map (\<lambda>p. (fst p, JString (snd p))) (filter (\<lambda>p. Config_has c (fst p)) pairs)))"
proof (induction pairs arbitrary: c)
  case Nil
  show ?case by (simp add: merged_Nil)
next
  case (Cons p pairs)
  show ?case
  proof (cases "Config_has c (fst p)")
    case False
    then show ?thesis using Cons.IH [OF Cons.prems] by simp
  next
    case True
    obtain r c1 where s: "Config_set B c (fst p) (JString (snd p)) = (r, c1)"
      by (cases "Config_set B c (fst p) (JString (snd p))")
    have c1: "c1 = snd (Config_set B c (fst p) (JString (snd p)))" using s by simp
    obtain ok where ok: "r = Inr ok"
      using Config_set_known_ok [OF Cons.prems True, of B "JString (snd p)"] s by auto
    have t: "typed_store c1"
      unfolding c1 by (rule typed_store_set [OF Cons.prems])
    have h: "Config_has c1 = Config_has c"
      unfolding c1 by (rule Config_has_set)
    have m: "merged B c1 es = merged B c ((fst p, JString (snd p)) # es)" for es
      unfolding c1 by (rule merged_Cons)
    show ?thesis
      using True Cons.IH [OF t] by (simp add: s ok h m)
  qed
qed




































section \<open>Properties of initialization\<close>

lemma await_fst_snd:
  "await m k d = (case fst (m d) of Inl e \<Rightarrow> (Inl e, snd (m d)) | Inr x \<Rightarrow> k x (snd (m d)))"
  by (cases "m d") (simp add: await_def split: sum.splits)

lemma all_succeeded_append [simp]:
  "all_succeeded (xs @ ys) = (all_succeeded xs \<and> all_succeeded ys)"
  by (simp add: all_succeeded_def)

lemma stages_of_append [simp]: "stages_of (xs @ ys) = stages_of xs @ stages_of ys"
  by (simp add: stages_of_def)

lemma stages_of_Nil [simp]: "stages_of [] = []"
  by (simp add: stages_of_def)

lemma all_succeeded_Nil [simp]: "all_succeeded []"
  by (simp add: all_succeeded_def)

lemma length_stages_of [simp]: "length (stages_of xs) = length xs"
  by (simp add: stages_of_def)

lemma all_succeeded_butlast: "all_succeeded xs \<Longrightarrow> all_succeeded (butlast xs)"
  by (auto simp: all_succeeded_def list_all_iff dest: in_set_butlastD)

lemma quiet_runs:
  assumes m: "quiet m" and k: "\<And>x. runs (k x) L" and L: "L \<noteq> []"
  shows "runs (await m k) L"
  unfolding runs_def
proof
  fix d
  show "\<exists>new. calls (snd (await m k d)) = calls d @ new \<and>
        (case fst (await m k d) of
           Inr x \<Rightarrow> stages_of new = map Some L \<and> all_succeeded new
         | Inl e \<Rightarrow> prefix (stages_of new) (map Some L) \<and> all_succeeded (butlast new)
                    \<and> \<not> (stages_of new = map Some L \<and> all_succeeded new))"
  proof (cases "fst (m d)")
    case (Inl e)
    have "calls (snd (m d)) = calls d" using m by (simp add: quiet_def)
    then show ?thesis using Inl L by (simp add: await_fst_snd)
  next
    case (Inr x)
    have c: "calls (snd (m d)) = calls d" using m by (simp add: quiet_def)
    from k [of x] obtain new where
      "calls (snd (k x (snd (m d)))) = calls (snd (m d)) @ new \<and>
        (case fst (k x (snd (m d))) of
           Inr x \<Rightarrow> stages_of new = map Some L \<and> all_succeeded new
         | Inl e \<Rightarrow> prefix (stages_of new) (map Some L) \<and> all_succeeded (butlast new)
                    \<and> \<not> (stages_of new = map Some L \<and> all_succeeded new))"
      unfolding runs_def by blast
    then show ?thesis using Inr c by (auto simp add: await_fst_snd)
  qed
qed

lemma runs_runs:
  assumes m: "runs m L1" and k: "\<And>x. runs (k x) L2"
  shows "runs (await m k) (L1 @ L2)"
  unfolding runs_def
proof
  fix d
  from m obtain n1 where n1: "calls (snd (m d)) = calls d @ n1"
    and r1: "(case fst (m d) of
           Inr x \<Rightarrow> stages_of n1 = map Some L1 \<and> all_succeeded n1
         | Inl e \<Rightarrow> prefix (stages_of n1) (map Some L1) \<and> all_succeeded (butlast n1)
                    \<and> \<not> (stages_of n1 = map Some L1 \<and> all_succeeded n1))"
    unfolding runs_def by blast
  show "\<exists>new. calls (snd (await m k d)) = calls d @ new \<and>
        (case fst (await m k d) of
           Inr x \<Rightarrow> stages_of new = map Some (L1 @ L2) \<and> all_succeeded new
         | Inl e \<Rightarrow> prefix (stages_of new) (map Some (L1 @ L2)) \<and> all_succeeded (butlast new)
                    \<and> \<not> (stages_of new = map Some (L1 @ L2) \<and> all_succeeded new))"
  proof (cases "fst (m d)")
    case (Inl e)
    from r1 Inl have p: "prefix (stages_of n1) (map Some L1)" and b: "all_succeeded (butlast n1)"
      and nf: "\<not> (stages_of n1 = map Some L1 \<and> all_succeeded n1)" by simp_all
    have len: "length n1 \<le> length L1" using p by (metis length_map length_stages_of prefix_length_le)
    have "\<not> (stages_of n1 = map Some (L1 @ L2) \<and> all_succeeded n1)"
    proof
      assume a: "stages_of n1 = map Some (L1 @ L2) \<and> all_succeeded n1"
      then have "length n1 = length L1 + length L2" by (metis length_append length_map length_stages_of)
      with len have "L2 = []" by simp
      with a nf show False by simp
    qed
    moreover have "prefix (stages_of n1) (map Some (L1 @ L2))" using p by (simp add: prefix_prefix)
    ultimately show ?thesis using Inl n1 b by (auto simp add: await_fst_snd)
  next
    case (Inr x)
    from r1 Inr have f1: "stages_of n1 = map Some L1" and s1: "all_succeeded n1" by simp_all
    from k [of x] obtain n2 where n2: "calls (snd (k x (snd (m d)))) = calls (snd (m d)) @ n2"
      and r2: "(case fst (k x (snd (m d))) of
           Inr x \<Rightarrow> stages_of n2 = map Some L2 \<and> all_succeeded n2
         | Inl e \<Rightarrow> prefix (stages_of n2) (map Some L2) \<and> all_succeeded (butlast n2)
                    \<and> \<not> (stages_of n2 = map Some L2 \<and> all_succeeded n2))"
      unfolding runs_def by blast
    have bl: "all_succeeded (butlast (n1 @ n2))" if "all_succeeded (butlast n2)"
      using that s1 by (cases "n2 = []") (simp_all add: butlast_append all_succeeded_butlast)
    have "calls (snd (await m k d)) = calls d @ (n1 @ n2)"
      using Inr n1 n2 by (simp add: await_fst_snd)
    moreover have "(case fst (await m k d) of
           Inr x \<Rightarrow> stages_of (n1 @ n2) = map Some (L1 @ L2) \<and> all_succeeded (n1 @ n2)
         | Inl e \<Rightarrow> prefix (stages_of (n1 @ n2)) (map Some (L1 @ L2)) \<and> all_succeeded (butlast (n1 @ n2))
                    \<and> \<not> (stages_of (n1 @ n2) = map Some (L1 @ L2) \<and> all_succeeded (n1 @ n2)))"
      using Inr r2 f1 s1 bl by (auto simp add: await_fst_snd split: sum.splits)
    ultimately show ?thesis by blast
  qed
qed

lemma flags_await:
  assumes m: "flags m False" and k: "\<And>x. flags (k x) b"
  shows "flags (await m k) b"
  unfolding flags_def
proof
  fix d
  show "initialized (snd (await m k d)) =
          (case fst (await m k d) of Inr x \<Rightarrow> initialized d \<or> b | Inl e \<Rightarrow> initialized d)"
  proof (cases "fst (m d)")
    case (Inl e)
    then show ?thesis using m by (simp add: await_fst_snd flags_def)
  next
    case (Inr x)
    have "initialized (snd (m d)) = initialized d" using m Inr by (simp add: flags_def)
    then show ?thesis using k [of x] Inr by (simp add: await_fst_snd flags_def split: sum.splits)
  qed
qed

lemma runs_ret: "runs (ret x) []"
  by (simp add: runs_def ret_def)

lemma runs_throw: "L \<noteq> [] \<Longrightarrow> runs (throw e) L"
  by (auto simp add: runs_def throw_def)

lemma runs_native:
  assumes "stage_of k = Some s" and "\<And>rv. \<not> bad rv \<Longrightarrow> \<not> call_failed (k, rv)"
    and "\<And>rv. bad rv \<Longrightarrow> call_failed (k, rv)"
    and "\<And>rv. runs (K rv) L"
  shows "runs (await (native E k) (\<lambda>rv. if bad rv then throw e else K rv)) (s # L)"
  unfolding runs_def
proof
  fix d :: Decoder
  define rv where "rv = ps_rv E (config d) (calls d) k"
  define d1 where "d1 = d\<lparr>calls := calls d @ [(k, rv)]\<rparr>"
  have nat: "native E k d = (Inr rv, d1)"
    by (simp add: native_def Let_def rv_def d1_def)
  show "\<exists>new. calls (snd (await (native E k) (\<lambda>rv. if bad rv then throw e else K rv) d)) = calls d @ new \<and>
        (case fst (await (native E k) (\<lambda>rv. if bad rv then throw e else K rv) d) of
           Inr x \<Rightarrow> stages_of new = map Some (s # L) \<and> all_succeeded new
         | Inl e \<Rightarrow> prefix (stages_of new) (map Some (s # L)) \<and> all_succeeded (butlast new)
                    \<and> \<not> (stages_of new = map Some (s # L) \<and> all_succeeded new))"
  proof (cases "bad rv")
    case True
    have "await (native E k) (\<lambda>rv. if bad rv then throw e else K rv) d = (Inl e, d1)"
      using True by (simp add: await_def nat throw_def)
    moreover have "calls d1 = calls d @ [(k, rv)]" by (simp add: d1_def)
    moreover have "call_failed (k, rv)" using True assms(3) by simp
    ultimately show ?thesis using assms(1)
      by (intro exI [of _ "[(k, rv)]"]) (simp add: stages_of_def all_succeeded_def)
  next
    case False
    have ok: "\<not> call_failed (k, rv)" using False assms(2) by simp
    from assms(4) [of rv] obtain n2 where n2: "calls (snd (K rv d1)) = calls d1 @ n2"
      and r2: "(case fst (K rv d1) of
           Inr x \<Rightarrow> stages_of n2 = map Some L \<and> all_succeeded n2
         | Inl e \<Rightarrow> prefix (stages_of n2) (map Some L) \<and> all_succeeded (butlast n2)
                    \<and> \<not> (stages_of n2 = map Some L \<and> all_succeeded n2))"
      unfolding runs_def by blast
    have eq: "await (native E k) (\<lambda>rv. if bad rv then throw e else K rv) d = K rv d1"
      using False by (simp add: await_def nat)
    have c: "calls (snd (K rv d1)) = calls d @ ((k, rv) # n2)"
      using n2 by (simp add: d1_def)
    have st: "stages_of ((k, rv) # n2) = Some s # stages_of n2"
      using assms(1) by (simp add: stages_of_def)
    have al: "all_succeeded ((k, rv) # n2) = all_succeeded n2"
      using ok by (simp add: all_succeeded_def)
    have bl: "all_succeeded (butlast n2) \<Longrightarrow> all_succeeded (butlast ((k, rv) # n2))"
      using ok by (simp add: all_succeeded_def)
    show ?thesis
      using r2 bl by (intro exI [of _ "(k, rv) # n2"]) (auto simp add: eq c st al split: sum.splits)
  qed
qed

lemma flags_ret: "flags (ret x) False"
  by (simp add: flags_def ret_def)

lemma flags_throw: "flags (throw e) b"
  by (simp add: flags_def throw_def)

lemma flags_native: "flags (native E k) False"
  by (simp add: flags_def native_def Let_def)

lemma flags_if: "flags f b \<Longrightarrow> flags g b \<Longrightarrow> flags (if c then f else g) b"
  by simp

lemma quiet_of_result: "quiet (\<lambda>d. of_result (f d) d)"
  by (simp add: quiet_def of_result_def)

lemma flags_of_result: "flags (\<lambda>d. of_result (f d) d) False"
  by (simp add: flags_def of_result_def split: sum.splits)

lemma quiet_config_model_path: "quiet (config_model_path E key modelfile)"
  by (simp add: quiet_def config_model_path_def of_result_def)

lemma flags_config_model_path: "flags (config_model_path E key modelfile) False"
  by (simp add: flags_def config_model_path_def of_result_def split: sum.splits)

lemma quiet_load_to_s3file: "quiet (load_to_s3file E path)"
  by (simp add: quiet_def load_to_s3file_def)

lemma flags_load_to_s3file: "flags (load_to_s3file E path) False"
  by (simp add: flags_def load_to_s3file_def split: sum.splits)

lemma quiet_init_featparams: "quiet (init_featparams E)"
  by (simp add: quiet_def init_featparams_def Let_def split: prod.splits)

lemma flags_init_featparams: "flags (init_featparams E) False"
  by (simp add: flags_def init_featparams_def Let_def split: prod.splits sum.splits)

lemma quiet_replace_config: "quiet (replace_config E arg)"
  by (simp add: quiet_def replace_config_def split: config_arg.splits sum.splits)

lemma flags_replace_config: "flags (replace_config E arg) False"
  by (simp add: flags_def replace_config_def split: config_arg.splits sum.splits)

lemma runs_init_config: "runs (init_config E) [ConfigResolution, ConfigResolution]"
  unfolding init_config_def
  by (intro quiet_runs quiet_init_featparams runs_native runs_ret) simp_all

lemma flags_init_config: "flags (init_config E) False"
  unfolding init_config_def
  by (intro flags_await flags_init_featparams flags_native flags_if flags_throw flags_ret)

lemma runs_init_fe: "runs (init_fe E) [FrontEnd]"
  unfolding init_fe_def by (intro runs_native runs_ret) simp_all

lemma flags_init_fe: "flags (init_fe E) False"
  unfolding init_fe_def by (intro flags_await flags_native flags_if flags_throw flags_ret)

lemma runs_init_feat: "runs (init_feat E) [FeatureModule]"
  unfolding init_feat_def by (intro runs_native runs_ret) simp_all

lemma flags_init_feat: "flags (init_feat E) False"
  unfolding init_feat_def by (intro flags_await flags_native flags_if flags_throw flags_ret)

lemma runs_init_acmod: "runs (init_acmod E) [AcousticPreInit]"
  unfolding init_acmod_def by (intro runs_native runs_ret) simp_all

lemma flags_init_acmod: "flags (init_acmod E) False"
  unfolding init_acmod_def by (intro flags_await flags_native flags_if flags_throw flags_ret)

lemma runs_init_dict: "runs (init_dict E) [DictionaryLoad]"
  unfolding init_dict_def by (intro runs_native runs_ret) simp_all

lemma flags_init_dict: "flags (init_dict E) False"
  unfolding init_dict_def by (intro flags_await flags_native flags_if flags_throw flags_ret)

lemma runs_init_grammar: "runs (init_grammar E) [GrammarInstall]"
  unfolding init_grammar_def by (intro runs_native runs_ret) simp_all

lemma flags_init_grammar: "flags (init_grammar E) False"
  unfolding init_grammar_def by (intro flags_await flags_native flags_if flags_throw flags_ret)


lemma runs_native_plain:
  assumes "stage_of k = Some s" and "\<And>rv. \<not> call_failed (k, rv)"
  shows "runs (await (native E k) (\<lambda>rv. ret ())) [s]"
  using runs_native [of k s "\<lambda>rv. False" "\<lambda>rv. ret ()" "[]" E undefined] assms
  by (simp add: runs_ret)

lemma runs_load_mdef: "runs (load_mdef E mdef_path) [ModelDefLoad]"
  unfolding load_mdef_def
proof (rule quiet_runs [OF quiet_load_to_s3file])
  fix s3f
  show "runs (let mdef = bin_mdef_read_s3file E s3f in
              if mdef = 0 then throw (Error ''Failed to read mdef'')
              else await (native E (Set_mdef mdef)) (\<lambda>rv. ret ())) [ModelDefLoad]"
    by (simp add: Let_def runs_throw runs_native_plain)
qed simp

lemma flags_load_mdef: "flags (load_mdef E mdef_path) False"
  unfolding load_mdef_def Let_def
  by (intro flags_await flags_load_to_s3file flags_native flags_if flags_throw flags_ret)

lemma runs_load_tmat: "runs (load_tmat E tmat_path) [TransitionMatrixLoad]"
  unfolding load_tmat_def
proof (rule quiet_runs [OF quiet_load_to_s3file])
  fix s3f
  show "runs (await (\<lambda>d. of_result (Config_get (config d) ''tmatfloor'') d) (\<lambda>tpfloor.
       let tmat = tmat_init_s3file E s3f (ps_get_logmath E) tpfloor in
       if tmat = 0 then throw (Error ''Failed to read tmat'')
       else await (native E (Set_tmat tmat)) (\<lambda>rv. ret ()))) [TransitionMatrixLoad]"
  proof (rule quiet_runs [OF quiet_of_result])
    fix tpfloor
    show "runs (let tmat = tmat_init_s3file E s3f (ps_get_logmath E) tpfloor in
       if tmat = 0 then throw (Error ''Failed to read tmat'')
       else await (native E (Set_tmat tmat)) (\<lambda>rv. ret ())) [TransitionMatrixLoad]"
      by (simp add: Let_def runs_throw runs_native_plain)
  qed simp
qed simp

lemma flags_load_tmat: "flags (load_tmat E tmat_path) False"
  unfolding load_tmat_def Let_def
  by (intro flags_await flags_load_to_s3file flags_of_result flags_native flags_if flags_throw flags_ret)

lemma quiet_prefer_sendump: "quiet (prefer_sendump E sendump_path mixw_path)"
  by (simp add: quiet_def prefer_sendump_def load_to_s3file_def Let_def split: sum.splits prod.splits)

lemma flags_prefer_sendump: "flags (prefer_sendump E sendump_path mixw_path) False"
  by (simp add: flags_def prefer_sendump_def load_to_s3file_def Let_def split: sum.splits prod.splits)

lemma runs_load_gmm: "runs (load_gmm E means_path variances_path sendump_path mixw_path) [GaussianLoad]"
  unfolding load_gmm_def
proof (intro quiet_runs quiet_load_to_s3file quiet_prefer_sendump)
  fix means variances :: int and x :: "int \<times> int"
  show "runs (case x of (sendump, mixw) \<Rightarrow>
     await (native E (Load_gmm means variances mixw sendump)) (\<lambda>rv.
       if rv < 0 then throw (Error ''Failed to load GMM parameters'') else ret ())) [GaussianLoad]"
    by (cases x) (simp, intro runs_native runs_ret, simp_all)
qed simp_all

lemma flags_load_gmm: "flags (load_gmm E means_path variances_path sendump_path mixw_path) False"
  unfolding load_gmm_def
proof (intro flags_await flags_load_to_s3file flags_prefer_sendump)
  fix means variances :: int and x :: "int \<times> int"
  show "flags (case x of (sendump, mixw) \<Rightarrow>
     await (native E (Load_gmm means variances mixw sendump)) (\<lambda>rv.
       if rv < 0 then throw (Error ''Failed to load GMM parameters'') else ret ())) False"
    by (cases x) (simp, intro flags_await flags_native flags_if flags_throw flags_ret)
qed

lemma runs_load_acmod_files:
  "runs (load_acmod_files E) [ModelDefLoad, TransitionMatrixLoad, GaussianLoad, AcousticPostInit]"
proof -
  have tail: "runs (await (native E Ps_init_acmod_post) (\<lambda>rv.
       if rv < 0 then throw (Error ''Failed to initialize acoustic scoring'') else ret ())) [AcousticPostInit]"
    by (intro runs_native runs_ret) simp_all
  have gmm: "runs (await (load_gmm E means variances sendump mixw) (\<lambda>u.
     await (native E Ps_init_acmod_post) (\<lambda>rv.
       if rv < 0 then throw (Error ''Failed to initialize acoustic scoring'') else ret ())))
       [GaussianLoad, AcousticPostInit]" for means variances sendump mixw
    using runs_runs [OF runs_load_gmm, of _ "[AcousticPostInit]"] tail by simp
  have paths: "runs (await (config_model_path E ''mean'' ''means'') (\<lambda>means.
     await (config_model_path E ''var'' ''variances'') (\<lambda>variances.
     await (config_model_path E ''sendump'' ''sendump'') (\<lambda>sendump.
     await (config_model_path E ''mixw'' ''mixture_weights'') (\<lambda>mixw.
     await (load_gmm E means variances sendump mixw) (\<lambda>u.
     await (native E Ps_init_acmod_post) (\<lambda>rv.
       if rv < 0 then throw (Error ''Failed to initialize acoustic scoring'') else ret ())))))))
       [GaussianLoad, AcousticPostInit]"
    by (intro quiet_runs quiet_config_model_path gmm) simp_all
  have tm: "runs (await (load_tmat E tmat) (\<lambda>u.
     await (config_model_path E ''mean'' ''means'') (\<lambda>means.
     await (config_model_path E ''var'' ''variances'') (\<lambda>variances.
     await (config_model_path E ''sendump'' ''sendump'') (\<lambda>sendump.
     await (config_model_path E ''mixw'' ''mixture_weights'') (\<lambda>mixw.
     await (load_gmm E means variances sendump mixw) (\<lambda>u.
     await (native E Ps_init_acmod_post) (\<lambda>rv.
       if rv < 0 then throw (Error ''Failed to initialize acoustic scoring'') else ret ()))))))))
       [TransitionMatrixLoad, GaussianLoad, AcousticPostInit]" for tmat
    using runs_runs [OF runs_load_tmat, of _ "[GaussianLoad, AcousticPostInit]"] paths by simp
  have md: "runs (await (load_mdef E mdef) (\<lambda>u.
     await (config_model_path E ''tmat'' ''transition_matrices'') (\<lambda>tmat.
     await (load_tmat E tmat) (\<lambda>u.
     await (config_model_path E ''mean'' ''means'') (\<lambda>means.
     await (config_model_path E ''var'' ''variances'') (\<lambda>variances.
     await (config_model_path E ''sendump'' ''sendump'') (\<lambda>sendump.
     await (config_model_path E ''mixw'' ''mixture_weights'') (\<lambda>mixw.
     await (load_gmm E means variances sendump mixw) (\<lambda>u.
     await (native E Ps_init_acmod_post) (\<lambda>rv.
       if rv < 0 then throw (Error ''Failed to initialize acoustic scoring'') else ret ()))))))))))
       [ModelDefLoad, TransitionMatrixLoad, GaussianLoad, AcousticPostInit]" for mdef
  proof -
    have "runs (await (config_model_path E ''tmat'' ''transition_matrices'') (\<lambda>tmat.
     await (load_tmat E tmat) (\<lambda>u.
     await (config_model_path E ''mean'' ''means'') (\<lambda>means.
     await (config_model_path E ''var'' ''variances'') (\<lambda>variances.
     await (config_model_path E ''sendump'' ''sendump'') (\<lambda>sendump.
     await (config_model_path E ''mixw'' ''mixture_weights'') (\<lambda>mixw.
     await (load_gmm E means variances sendump mixw) (\<lambda>u.
     await (native E Ps_init_acmod_post) (\<lambda>rv.
       if rv < 0 then throw (Error ''Failed to initialize acoustic scoring'') else ret ())))))))))
       [TransitionMatrixLoad, GaussianLoad, AcousticPostInit]"
      by (intro quiet_runs quiet_config_model_path tm) simp_all
    then show ?thesis
      using runs_runs [OF runs_load_mdef, of _ "[TransitionMatrixLoad, GaussianLoad, AcousticPostInit]"]
      by simp
  qed
  show ?thesis
    unfolding load_acmod_files_def
    by (intro quiet_runs quiet_config_model_path md) simp_all
qed

lemma flags_load_acmod_files: "flags (load_acmod_files E) False"
  unfolding load_acmod_files_def
  by (intro flags_await flags_config_model_path flags_load_mdef flags_load_tmat flags_load_gmm
      flags_native flags_if flags_throw flags_ret)


lemma runs_final: "runs (\<lambda>d'. (Inr (), d'\<lparr>initialized := True\<rparr>)) []"
  by (simp add: runs_def)

lemma flags_final: "flags (\<lambda>d'. (Inr (), d'\<lparr>initialized := True\<rparr>)) True"
  by (simp add: flags_def)

lemma runs_init_chain: "runs (init_chain E arg) call_stages"
proof -
  have g: "runs (await (init_grammar E) (\<lambda>u d'. (Inr (), d'\<lparr>initialized := True\<rparr>))) [GrammarInstall]"
    using runs_runs [OF runs_init_grammar, of "\<lambda>u d'. (Inr (), d'\<lparr>initialized := True\<rparr>)" "[]"] runs_final
    by simp
  have dc: "runs (await (init_dict E) (\<lambda>u.
         await (init_grammar E) (\<lambda>u d'. (Inr (), d'\<lparr>initialized := True\<rparr>))))
         [DictionaryLoad, GrammarInstall]"
    using runs_runs [OF runs_init_dict, of _ "[GrammarInstall]"] g by simp
  have ac: "runs (await (load_acmod_files E) (\<lambda>u. await (init_dict E) (\<lambda>u.
         await (init_grammar E) (\<lambda>u d'. (Inr (), d'\<lparr>initialized := True\<rparr>)))))
         [ModelDefLoad, TransitionMatrixLoad, GaussianLoad, AcousticPostInit, DictionaryLoad, GrammarInstall]"
    using runs_runs [OF runs_load_acmod_files, of _ "[DictionaryLoad, GrammarInstall]"] dc by simp
  have am: "runs (await (init_acmod E) (\<lambda>u.
         await (load_acmod_files E) (\<lambda>u. await (init_dict E) (\<lambda>u.
         await (init_grammar E) (\<lambda>u d'. (Inr (), d'\<lparr>initialized := True\<rparr>))))))
         [AcousticPreInit, ModelDefLoad, TransitionMatrixLoad, GaussianLoad, AcousticPostInit,
          DictionaryLoad, GrammarInstall]"
    using runs_runs [OF runs_init_acmod] ac by fastforce
  have ft: "runs (await (init_feat E) (\<lambda>u. await (init_acmod E) (\<lambda>u.
         await (load_acmod_files E) (\<lambda>u. await (init_dict E) (\<lambda>u.
         await (init_grammar E) (\<lambda>u d'. (Inr (), d'\<lparr>initialized := True\<rparr>)))))))
         [FeatureModule, AcousticPreInit, ModelDefLoad, TransitionMatrixLoad, GaussianLoad,
          AcousticPostInit, DictionaryLoad, GrammarInstall]"
    using runs_runs [OF runs_init_feat] am by fastforce
  have fe: "runs (await (init_fe E) (\<lambda>u. await (init_feat E) (\<lambda>u. await (init_acmod E) (\<lambda>u.
         await (load_acmod_files E) (\<lambda>u. await (init_dict E) (\<lambda>u.
         await (init_grammar E) (\<lambda>u d'. (Inr (), d'\<lparr>initialized := True\<rparr>))))))))
         [FrontEnd, FeatureModule, AcousticPreInit, ModelDefLoad, TransitionMatrixLoad, GaussianLoad,
          AcousticPostInit, DictionaryLoad, GrammarInstall]"
    using runs_runs [OF runs_init_fe] ft by fastforce
  have cf: "runs (await (init_config E) (\<lambda>u. await (init_fe E) (\<lambda>u. await (init_feat E) (\<lambda>u.
         await (init_acmod E) (\<lambda>u.
         await (load_acmod_files E) (\<lambda>u. await (init_dict E) (\<lambda>u.
         await (init_grammar E) (\<lambda>u d'. (Inr (), d'\<lparr>initialized := True\<rparr>)))))))))
         call_stages"
    using runs_runs [OF runs_init_config] fe unfolding call_stages_def by fastforce
  show ?thesis
    unfolding init_chain_def
    by (rule quiet_runs [OF quiet_replace_config cf]) (simp add: call_stages_def)
qed

lemma flags_init_chain: "flags (init_chain E arg) True"
  unfolding init_chain_def
  by (intro flags_await flags_replace_config flags_init_config flags_init_fe flags_init_feat
      flags_init_acmod flags_load_acmod_files flags_init_dict flags_init_grammar flags_final)

lemmas initialize_chain = initialize_def

lemma initialize_calls:
  "\<exists>new. calls (snd (initialize E arg d)) = calls d @ new
     \<and> prefix (stages_of new) (map Some call_stages)
     \<and> all_succeeded (butlast new)
     \<and> ((fst (initialize E arg d) = Inr ()) = (stages_of new = map Some call_stages \<and> all_succeeded new))"
proof (cases "ps d = 0")
  case True
  then show ?thesis by (simp add: initialize_chain call_stages_def)
next
  case False
  from runs_init_chain [of E arg] obtain new where
    n: "calls (snd (init_chain E arg d)) = calls d @ new"
    and r: "(case fst (init_chain E arg d) of
           Inr x \<Rightarrow> stages_of new = map Some call_stages \<and> all_succeeded new
         | Inl e \<Rightarrow> prefix (stages_of new) (map Some call_stages) \<and> all_succeeded (butlast new)
                    \<and> \<not> (stages_of new = map Some call_stages \<and> all_succeeded new))"
    unfolding runs_def by blast
  show ?thesis
    using False n r
    by (intro exI [of _ new]) (auto simp add: initialize_chain all_succeeded_butlast split: sum.splits)
qed

lemma initialize_flag:
  "initialized (snd (initialize E arg d)) = (initialized d \<or> fst (initialize E arg d) = Inr ())"
proof (cases "ps d = 0")
  case True
  then show ?thesis by (simp add: initialize_chain)
next
  case False
  then show ?thesis
    using flags_init_chain [of E arg] by (auto simp add: initialize_chain flags_def split: sum.splits)
qed

lemma stage_prefix:
  assumes "prefix xs (map Some call_stages)"
  shows "\<exists>k\<le>length stage_order. remdups_adj xs = map Some (take k stage_order)"
proof -
  have m: "xs \<in> set (prefixes (map Some call_stages))"
    using assms by (simp add: in_set_prefixes)
  have "remdups_adj xs = map Some (take (length (remdups_adj xs)) stage_order)
        \<and> length (remdups_adj xs) \<le> length stage_order"
    using m by (auto simp add: call_stages_def stage_order_def)
  then show ?thesis by blast
qed

text \<open>
  C1. Whatever the environment answers, the calls that \<open>initialize\<close> makes on the native
  decoder are a prefix of the declared sequence: configuration resolution (two calls),
  front end, feature module, acoustic pre-initialization, model definition, transition
  matrices, Gaussian parameters, acoustic post-initialization, dictionary, grammar. Every
  call but the last one made has succeeded, so no stage starts before its predecessor has
  completed and none is passed over; and \<open>initialize\<close> returns normally exactly when all
  calls have been made and have succeeded: the first failure ends the attempt.
\<close>

theorem initialize_stage_order:
  "\<exists>new. calls (snd (initialize E arg d)) = calls d @ new
     \<and> prefix (stages_of new) (map Some call_stages)
     \<and> all_succeeded (butlast new)
     \<and> ((fst (initialize E arg d) = Inr ()) = (stages_of new = map Some call_stages \<and> all_succeeded new))
     \<and> (\<exists>k\<le>length stage_order. remdups_adj (stages_of new) = map Some (take k stage_order))"
proof -
  from initialize_calls [of E arg d] obtain new where
    n: "calls (snd (initialize E arg d)) = calls d @ new"
    and p: "prefix (stages_of new) (map Some call_stages)"
    and b: "all_succeeded (butlast new)"
    and r: "(fst (initialize E arg d) = Inr ()) = (stages_of new = map Some call_stages \<and> all_succeeded new)"
    by blast
  from stage_prefix [OF p] n p b r show ?thesis by blast
qed


theorem initialize_stage_order_witness:
  "fst (initialize demo_env_no_feat NoArg demo_decoder) = Inl (Error ''Failed to initialize feature module'')
   \<and> calls (snd (initialize demo_env_no_feat NoArg demo_decoder))
       = [(Ps_init_config, 1), (Ps_init_cleanup, 1), (Ps_init_fe, 1), (Ps_init_feat, 0)]
   \<and> fst (initialize demo_env NoArg demo_decoder) = Inr ()
   \<and> map fst (calls (snd (initialize demo_env NoArg demo_decoder)))
       = [Ps_init_config, Ps_init_cleanup, Ps_init_fe, Ps_init_feat, Ps_init_acmod_pre, Set_mdef 3,
          Set_tmat 4, Load_gmm 2048 2048 2048 0, Ps_init_acmod_post, Ps_init_dict, Ps_init_grammar]
   \<and> (\<exists>new. calls (snd (initialize demo_env_no_feat NoArg demo_decoder)) = calls demo_decoder @ new
     \<and> prefix (stages_of new) (map Some call_stages)
     \<and> all_succeeded (butlast new)
     \<and> ((fst (initialize demo_env_no_feat NoArg demo_decoder) = Inr ())
          = (stages_of new = map Some call_stages \<and> all_succeeded new))
     \<and> (\<exists>k\<le>length stage_order. remdups_adj (stages_of new) = map Some (take k stage_order)))"
proof -
  have a: "fst (initialize demo_env_no_feat NoArg demo_decoder)
             = Inl (Error ''Failed to initialize feature module'')"
    by code_simp
  have b: "calls (snd (initialize demo_env_no_feat NoArg demo_decoder))
       = [(Ps_init_config, 1), (Ps_init_cleanup, 1), (Ps_init_fe, 1), (Ps_init_feat, 0)]"
    by code_simp
  have c: "fst (initialize demo_env NoArg demo_decoder) = Inr ()"
    by code_simp
  have d: "map fst (calls (snd (initialize demo_env NoArg demo_decoder)))
       = [Ps_init_config, Ps_init_cleanup, Ps_init_fe, Ps_init_feat, Ps_init_acmod_pre, Set_mdef 3,
          Set_tmat 4, Load_gmm 2048 2048 2048 0, Ps_init_acmod_post, Ps_init_dict, Ps_init_grammar]"
    by code_simp
  note T = initialize_stage_order [of demo_env_no_feat NoArg demo_decoder]
  show ?thesis
    by (intro conjI a b c d T)
qed

text \<open>
  C2. In \<open>load_gmm\<close>, once means and variances are loaded, the \<open>sendump\<close> file is
  requested first. When it loads, the native loader receives it with a null
  \<open>mixture_weights\<close> pointer and the \<open>mixture_weights\<close> file is not requested. When it
  does not load, the \<open>mixture_weights\<close> file is requested and passed with a null
  \<open>sendump\<close> pointer, and loading succeeds when the native loader accepts it. In
  either case no field of the decoder object changes: only the histories of requests and
  native calls, which the object does not hold, tell the two paths apart.
\<close>

theorem load_gmm_fallback:
  assumes "s3file_of E means_path = Inr means" and "s3file_of E variances_path = Inr variances"
  shows "(s3file_of E sendump_path = Inr sendump \<longrightarrow>
            load_gmm E means_path variances_path sendump_path mixw_path d =
              (let rv = ps_rv E (config d) (calls d) (Load_gmm means variances 0 sendump) in
               (if rv < 0 then Inl (Error ''Failed to load GMM parameters'') else Inr (),
                d\<lparr>reads := reads d @ [means_path, variances_path, sendump_path],
                  calls := calls d @ [(Load_gmm means variances 0 sendump, rv)]\<rparr>)))
       \<and> (s3file_of E sendump_path = Inl e \<and> s3file_of E mixw_path = Inr mixw \<longrightarrow>
            load_gmm E means_path variances_path sendump_path mixw_path d =
              (let rv = ps_rv E (config d) (calls d) (Load_gmm means variances mixw 0) in
               (if rv < 0 then Inl (Error ''Failed to load GMM parameters'') else Inr (),
                d\<lparr>reads := reads d @ [means_path, variances_path, sendump_path, mixw_path],
                  calls := calls d @ [(Load_gmm means variances mixw 0, rv)]\<rparr>)))
       \<and> (s3file_of E sendump_path = Inl e \<and> s3file_of E mixw_path = Inl e' \<longrightarrow>
            load_gmm E means_path variances_path sendump_path mixw_path d =
              (Inl e', d\<lparr>reads := reads d @ [means_path, variances_path, sendump_path, mixw_path]\<rparr>))"
  using assms
  by (simp add: load_gmm_def await_def load_to_s3file_def prefer_sendump_def native_def Let_def
      throw_def ret_def)

theorem load_gmm_fallback_witness:
  "s3file_of demo_env (JString ''en-us/means'') = Inr 2048
   \<and> s3file_of demo_env (JString ''en-us/variances'') = Inr 2048
   \<and> s3file_of demo_env (JString ''en-us/sendump'') = Inl (Error ''ENOENT'')
   \<and> s3file_of demo_env (JString ''en-us/mixture_weights'') = Inr 2048
   \<and> s3file_of demo_env (JString ''fr-fr/sendump'') = Inr 2048
   \<and> load_gmm demo_env (JString ''en-us/means'') (JString ''en-us/variances'')
        (JString ''en-us/sendump'') (JString ''en-us/mixture_weights'') demo_decoder
      = (Inr (), demo_decoder\<lparr>reads := [JString ''en-us/means'', JString ''en-us/variances'',
                                          JString ''en-us/sendump'', JString ''en-us/mixture_weights''],
                                calls := [(Load_gmm 2048 2048 2048 0, 1)]\<rparr>)
   \<and> load_gmm demo_env (JString ''en-us/means'') (JString ''en-us/variances'')
        (JString ''fr-fr/sendump'') (JString ''en-us/mixture_weights'') demo_decoder
      = (Inr (), demo_decoder\<lparr>reads := [JString ''en-us/means'', JString ''en-us/variances'',
                                          JString ''fr-fr/sendump''],
                                calls := [(Load_gmm 2048 2048 0 2048, 1)]\<rparr>)"
proof -
  have m: "s3file_of demo_env (JString ''en-us/means'') = Inr 2048"
    by (simp add: s3file_of_def demo_env_def)
  have v: "s3file_of demo_env (JString ''en-us/variances'') = Inr 2048"
    by (simp add: s3file_of_def demo_env_def)
  have s: "s3file_of demo_env (JString ''en-us/sendump'') = Inl (Error ''ENOENT'')"
    by (simp add: s3file_of_def demo_env_def)
  have w: "s3file_of demo_env (JString ''en-us/mixture_weights'') = Inr 2048"
    by (simp add: s3file_of_def demo_env_def)
  have s2: "s3file_of demo_env (JString ''fr-fr/sendump'') = Inr 2048"
    by (simp add: s3file_of_def demo_env_def)
  have rv: "ps_rv demo_env c h k = 1" for c h k
    by (simp add: demo_env_def)
  have r0: "reads demo_decoder = []" and c0: "calls demo_decoder = []"
    by (simp_all add: demo_decoder_def)
  note T1 = load_gmm_fallback [OF m v, where sendump_path = "JString ''en-us/sendump''"
      and e = "Error ''ENOENT''" and mixw_path = "JString ''en-us/mixture_weights''"
      and mixw = 2048 and d = demo_decoder]
  note T2 = load_gmm_fallback [OF m v, where sendump_path = "JString ''fr-fr/sendump''"
      and sendump = 2048 and mixw_path = "JString ''en-us/mixture_weights''" and d = demo_decoder]
  have a: "load_gmm demo_env (JString ''en-us/means'') (JString ''en-us/variances'')
        (JString ''en-us/sendump'') (JString ''en-us/mixture_weights'') demo_decoder
      = (Inr (), demo_decoder\<lparr>reads := [JString ''en-us/means'', JString ''en-us/variances'',
                                          JString ''en-us/sendump'', JString ''en-us/mixture_weights''],
                                calls := [(Load_gmm 2048 2048 2048 0, 1)]\<rparr>)"
    using T1 s w by (simp add: rv r0 c0)
  have b: "load_gmm demo_env (JString ''en-us/means'') (JString ''en-us/variances'')
        (JString ''fr-fr/sendump'') (JString ''en-us/mixture_weights'') demo_decoder
      = (Inr (), demo_decoder\<lparr>reads := [JString ''en-us/means'', JString ''en-us/variances'',
                                          JString ''fr-fr/sendump''],
                                calls := [(Load_gmm 2048 2048 0 2048, 1)]\<rparr>)"
    using T2 s2 by (simp add: rv r0 c0)
  show ?thesis by (intro conjI m v s w s2 a b)
qed

lemma Decoder_new_flag: "Decoder_new E h arg = Inr d0 \<Longrightarrow> \<not> initialized d0"
  by (auto simp add: Decoder_new_def split: sum.splits if_splits)

lemma initialize_success_iff:
  "(fst (initialize E arg d) = Inr ()) =
     (\<exists>new. calls (snd (initialize E arg d)) = calls d @ new
        \<and> stages_of new = map Some call_stages \<and> all_succeeded new)"
proof -
  from initialize_calls [of E arg d] obtain new where
    n: "calls (snd (initialize E arg d)) = calls d @ new"
    and r: "(fst (initialize E arg d) = Inr ()) = (stages_of new = map Some call_stages \<and> all_succeeded new)"
    by blast
  show ?thesis
  proof
    assume "fst (initialize E arg d) = Inr ()"
    then show "\<exists>new. calls (snd (initialize E arg d)) = calls d @ new
        \<and> stages_of new = map Some call_stages \<and> all_succeeded new"
      using n r by blast
  next
    assume "\<exists>new. calls (snd (initialize E arg d)) = calls d @ new
        \<and> stages_of new = map Some call_stages \<and> all_succeeded new"
    then obtain new' where n': "calls (snd (initialize E arg d)) = calls d @ new'"
      and f: "stages_of new' = map Some call_stages" "all_succeeded new'" by blast
    from n n' have "new' = new" by simp
    with f r show "fst (initialize E arg d) = Inr ()" by simp
  qed
qed

text \<open>
  C8. The constructor leaves the flag \<open>initialized\<close> false; \<open>initialize\<close> raises it
  exactly when it returns normally, which it does exactly when the calls of all stages have
  been made and have succeeded, and leaves it as it was otherwise. While the flag is
  false, each of the eleven operations throws \<open>Decoder not yet initialized\<close> and leaves
  the state, native side included, as it was.
\<close>

theorem initialized_flag_guard:
  "(Decoder_new E h arg0 = Inr d0 \<longrightarrow> \<not> initialized d0)
   \<and> initialized (snd (initialize E arg d)) = (initialized d \<or> fst (initialize E arg d) = Inr ())
   \<and> (fst (initialize E arg d) = Inr ()) =
       (\<exists>new. calls (snd (initialize E arg d)) = calls d @ new
          \<and> stages_of new = map Some call_stages \<and> all_succeeded new)
   \<and> (\<not> initialized d \<longrightarrow>
        start E d = (Inl (Error ''Decoder not yet initialized''), d)
      \<and> stop E d = (Inl (Error ''Decoder not yet initialized''), d)
      \<and> process E pcm no_search full_utt d = (Inl (Error ''Decoder not yet initialized''), d)
      \<and> get_hyp E d = (Inl (Error ''Decoder not yet initialized''), d)
      \<and> get_hypseg E d = (Inl (Error ''Decoder not yet initialized''), d)
      \<and> lookup_word E word d = (Inl (Error ''Decoder not yet initialized''), d)
      \<and> add_word E word pron update d = (Inl (Error ''Decoder not yet initialized''), d)
      \<and> create_fsg E name start_st final_st transitions d = (Inl (Error ''Decoder not yet initialized''), d)
      \<and> parse_jsgf E jsgf_string toprule d = (Inl (Error ''Decoder not yet initialized''), d)
      \<and> set_fsg E fsg d = (Inl (Error ''Decoder not yet initialized''), d)
      \<and> reinitialize_audio E d = (Inl (Error ''Decoder not yet initialized''), d))"
proof -
  have g: "await assert_initialized k d = (Inl (Error ''Decoder not yet initialized''), d)"
    if "\<not> initialized d" for k :: "unit \<Rightarrow> 'b action"
    using that by (simp add: await_def assert_initialized_def)
  show ?thesis
    using Decoder_new_flag [of E h arg0 d0] initialize_flag [of E arg d] initialize_success_iff [of E arg d]
    by (simp add: g start_def stop_def process_def get_hyp_def get_hypseg_def lookup_word_def
        add_word_def create_fsg_def parse_jsgf_def set_fsg_def reinitialize_audio_def)
qed

theorem initialized_flag_guard_witness:
  "Decoder_new demo_env demo_heap (ConfigObject demo_store) = Inr demo_decoder
   \<and> \<not> initialized demo_decoder
   \<and> start demo_env demo_decoder = (Inl (Error ''Decoder not yet initialized''), demo_decoder)
   \<and> create_fsg demo_env ''g'' 0 0 [] demo_decoder
       = (Inl (Error ''Decoder not yet initialized''), demo_decoder)
   \<and> fst (initialize demo_env NoArg demo_decoder) = Inr ()
   \<and> initialized (snd (initialize demo_env NoArg demo_decoder))
   \<and> fst (initialize demo_env_no_feat NoArg demo_decoder) \<noteq> Inr ()
   \<and> \<not> initialized (snd (initialize demo_env_no_feat NoArg demo_decoder))
   \<and> fst (start demo_env (snd (initialize demo_env NoArg demo_decoder))) = Inr ()"
proof -
  have n: "Decoder_new demo_env demo_heap (ConfigObject demo_store) = Inr demo_decoder"
    by (simp add: Decoder_new_def demo_env_def demo_decoder_def)
  have i: "\<not> initialized demo_decoder"
    by (simp add: demo_decoder_def)
  have ok: "fst (initialize demo_env NoArg demo_decoder) = Inr ()"
    by code_simp
  have ko: "fst (initialize demo_env_no_feat NoArg demo_decoder) \<noteq> Inr ()"
    by code_simp
  have st: "fst (start demo_env (snd (initialize demo_env NoArg demo_decoder))) = Inr ()"
    by code_simp
  note T = initialized_flag_guard [where E = demo_env and h = demo_heap
      and ?arg0.0 = "ConfigObject demo_store" and ?d0.0 = demo_decoder and arg = NoArg and d = demo_decoder
      and name = "''g''" and start_st = 0 and final_st = 0 and transitions = "[]"]
  note U = initialized_flag_guard [where E = demo_env_no_feat and arg = NoArg and d = demo_decoder]
  have a: "start demo_env demo_decoder = (Inl (Error ''Decoder not yet initialized''), demo_decoder)"
    using T i by blast
  have b: "create_fsg demo_env ''g'' 0 0 [] demo_decoder
       = (Inl (Error ''Decoder not yet initialized''), demo_decoder)"
    using T i by blast
  have c: "initialized (snd (initialize demo_env NoArg demo_decoder))"
    using T ok by blast
  have d: "\<not> initialized (snd (initialize demo_env_no_feat NoArg demo_decoder))"
    using U ko i by blast
  show ?thesis by (intro conjI n i a b ok c ko d st)
qed

section \<open>Properties of grammar construction\<close>

lemma first_occurrences_snoc:
  "first_occurrences (xs @ [x]) =
     (if x \<in> set xs then first_occurrences xs else first_occurrences xs @ [x])"
  by (simp add: first_occurrences_def)

lemma set_first_occurrences [simp]: "set (first_occurrences xs) = set xs"
  by (simp add: first_occurrences_def)

lemma distinct_first_occurrences [simp]: "distinct (first_occurrences xs)"
  by (simp add: first_occurrences_def)

lemma first_occurrences_prefix: "prefix (first_occurrences xs) (first_occurrences (xs @ ys))"
proof (induction ys rule: rev_induct)
  case Nil
  show ?case by simp
next
  case (snoc y ys)
  have "first_occurrences (xs @ ys @ [y]) =
      (if y \<in> set (xs @ ys) then first_occurrences (xs @ ys) else first_occurrences (xs @ ys) @ [y])"
    using first_occurrences_snoc [of "xs @ ys" y] by simp
  then show ?case using snoc by (auto simp: prefix_def)
qed

lemma word_id_None: "(fsg_model_word_id xs w = None) = (w \<notin> set xs)"
  by (induction xs) auto

lemma word_id_Some: "fsg_model_word_id xs w = Some i \<Longrightarrow> i < length xs \<and> xs ! i = w"
  by (induction xs arbitrary: i) (auto split: if_splits)

lemma word_id_append: "fsg_model_word_id xs w = Some i \<Longrightarrow> fsg_model_word_id (xs @ ys) w = Some i"
  by (induction xs arbitrary: i) (auto split: if_splits)

lemma word_id_new: "w \<notin> set xs \<Longrightarrow> fsg_model_word_id (xs @ [w]) w = Some (length xs)"
  by (induction xs) auto

lemma word_id_prefix:
  "prefix xs zs \<Longrightarrow> fsg_model_word_id xs w = Some i \<Longrightarrow> fsg_model_word_id zs w = Some i"
  by (auto simp: prefix_def word_id_append)

lemma heap_same: "cells h p = Some g \<Longrightarrow> h\<lparr>cells := (cells h)(p \<mapsto> g)\<rparr> = h"
  by (simp add: fun_upd_idem)

lemma word_add_spec:
  assumes "\<not> word_add_fails E (vocab g0) w" and "cells h p = Some g0"
  shows "\<exists>i. fsg_model_word_add E h p w =
            (int i, h\<lparr>cells := (cells h)(p \<mapsto> g0\<lparr>vocab := (if w \<in> set (vocab g0) then vocab g0 else vocab g0 @ [w])\<rparr>)\<rparr>)
          \<and> fsg_model_word_id (if w \<in> set (vocab g0) then vocab g0 else vocab g0 @ [w]) w = Some i"
proof (cases "fsg_model_word_id (vocab g0) w")
  case None
  then have n: "w \<notin> set (vocab g0)" by (simp add: word_id_None)
  show ?thesis
    using assms None n
    by (simp add: fsg_model_word_add_def heap_update_def word_id_new)
next
  case (Some i)
  then have m: "w \<in> set (vocab g0)" using word_id_None [of "vocab g0" w] by auto
  show ?thesis
    using assms Some m by (simp add: fsg_model_word_add_def heap_same)
qed

lemma word_add_refused:
  assumes "word_add_fails E (vocab g0) w" and "cells h p = Some g0"
  shows "fsg_model_word_add E h p w = (- 1, h)"
  using assms by (simp add: fsg_model_word_add_def)

lemma add_transitions_spec:
  assumes "cells h p = Some g0" and "vocab g0 = first_occurrences W0"
  shows "(case add_transitions E p ts h of
           (True, h') \<Rightarrow>
             (\<exists>g. h' = h\<lparr>cells := (cells h)(p \<mapsto> g)\<rparr>
                \<and> vocab g = first_occurrences (W0 @ words_of ts)
                \<and> links g = links g0 @ map (link_for E (vocab g)) ts
                \<and> fsg_name g = fsg_name g0 \<and> fsg_lw g = fsg_lw g0 \<and> n_state g = n_state g0
                \<and> start_state g = start_state g0 \<and> final_state g = final_state g0)
         | (False, h') \<Rightarrow>
             cells h' p = None \<and> brk h' = brk h \<and> (\<forall>q. q \<noteq> p \<longrightarrow> cells h' q = cells h q))"
  using assms
proof (induction ts arbitrary: h g0 W0)
  case Nil
  have e: "h\<lparr>cells := (cells h)(p \<mapsto> g0)\<rparr> = h"
    using Nil(1) by (rule heap_same)
  have "h = h\<lparr>cells := (cells h)(p \<mapsto> g0)\<rparr>
     \<and> vocab g0 = first_occurrences (W0 @ words_of [])
     \<and> links g0 = links g0 @ map (link_for E (vocab g0)) []"
    using Nil by (simp only: e) simp
  then show ?case by auto
next
  case (Cons t ts)
  define lp where "lp = (case t_prob t of None \<Rightarrow> 0 | Some p \<Rightarrow> logmath_log E p)"
  have step: "(case add_transitions E p (t # ts) h of
           (True, h') \<Rightarrow>
             (\<exists>g. h' = h\<lparr>cells := (cells h)(p \<mapsto> g)\<rparr>
                \<and> vocab g = first_occurrences (W0 @ words_of (t # ts))
                \<and> links g = links g0 @ map (link_for E (vocab g)) (t # ts)
                \<and> fsg_name g = fsg_name g0 \<and> fsg_lw g = fsg_lw g0 \<and> n_state g = n_state g0
                \<and> start_state g = start_state g0 \<and> final_state g = final_state g0)
         | (False, h') \<Rightarrow>
             cells h' p = None \<and> brk h' = brk h \<and> (\<forall>q. q \<noteq> p \<longrightarrow> cells h' q = cells h q))"
    if s: "add_transitions E p (t # ts) h = add_transitions E p ts h1"
      and h1: "h1 = h\<lparr>cells := (cells h)(p \<mapsto> g1)\<rparr>"
      and v1: "vocab g1 = first_occurrences (W0 @ words_of [t])"
      and l1: "links g1 = links g0 @ [l]"
      and lk: "\<And>table. prefix (vocab g1) table \<Longrightarrow> link_for E table t = l"
      and same: "fsg_name g1 = fsg_name g0 \<and> fsg_lw g1 = fsg_lw g0 \<and> n_state g1 = n_state g0
                \<and> start_state g1 = start_state g0 \<and> final_state g1 = final_state g0"
    for h1 g1 l
  proof -
    have c1: "cells h1 p = Some g1" by (simp add: h1)
    obtain ok h' where res: "add_transitions E p ts h1 = (ok, h')"
      by (cases "add_transitions E p ts h1")
    note ih = Cons.IH [OF c1 v1, unfolded res]
    show ?thesis
    proof (cases ok)
      case False
      from ih False have "cells h' p = None \<and> brk h' = brk h1 \<and> (\<forall>q. q \<noteq> p \<longrightarrow> cells h' q = cells h1 q)"
        by simp
      then have "cells h' p = None \<and> brk h' = brk h \<and> (\<forall>q. q \<noteq> p \<longrightarrow> cells h' q = cells h q)"
        by (simp add: h1)
      then show ?thesis using False by (simp only: s res) simp
    next
      case True
      from ih True obtain g where
        a: "h' = h1\<lparr>cells := (cells h1)(p \<mapsto> g)\<rparr>"
        and v: "vocab g = first_occurrences ((W0 @ words_of [t]) @ words_of ts)"
        and l: "links g = links g1 @ map (link_for E (vocab g)) ts"
        and r: "fsg_name g = fsg_name g1 \<and> fsg_lw g = fsg_lw g1 \<and> n_state g = n_state g1
                \<and> start_state g = start_state g1 \<and> final_state g = final_state g1"
        by auto
      have pre: "prefix (vocab g1) (vocab g)"
        unfolding v v1 by (rule first_occurrences_prefix)
      have hh: "h' = h\<lparr>cells := (cells h)(p \<mapsto> g)\<rparr>"
        by (simp add: a h1)
      have w: "words_of [t] @ words_of ts = words_of (t # ts)"
        by (simp split: option.splits)
      have v': "vocab g = first_occurrences (W0 @ words_of (t # ts))"
        using v w by simp
      have l': "links g = links g0 @ map (link_for E (vocab g)) (t # ts)"
        using l l1 lk [OF pre] by simp
      have "\<exists>g. h' = h\<lparr>cells := (cells h)(p \<mapsto> g)\<rparr>
                \<and> vocab g = first_occurrences (W0 @ words_of (t # ts))
                \<and> links g = links g0 @ map (link_for E (vocab g)) (t # ts)
                \<and> fsg_name g = fsg_name g0 \<and> fsg_lw g = fsg_lw g0 \<and> n_state g = n_state g0
                \<and> start_state g = start_state g0 \<and> final_state g = final_state g0"
        using hh v' l' r same by auto
      then show ?thesis using True by (simp only: s res) simp
    qed
  qed
  show ?case
  proof (cases "t_word t")
    case None
    define g1 where "g1 = g0\<lparr>links := links g0 @ [\<lparr>from_state = t_from t, to_state = t_to t, logs2prob = lp, wid = None\<rparr>]\<rparr>"
    define h1 where "h1 = h\<lparr>cells := (cells h)(p \<mapsto> g1)\<rparr>"
    have s: "add_transitions E p (t # ts) h = add_transitions E p ts h1"
      using None Cons.prems(1)
      by (simp add: lp_def h1_def g1_def fsg_model_null_trans_add_def heap_update_def)
    show ?thesis
    proof (rule step [OF s h1_def])
      show "vocab g1 = first_occurrences (W0 @ words_of [t])"
        using Cons.prems(2) None by (simp add: g1_def)
      show "links g1 = links g0 @ [\<lparr>from_state = t_from t, to_state = t_to t, logs2prob = lp, wid = None\<rparr>]"
        by (simp add: g1_def)
      show "link_for E table t = \<lparr>from_state = t_from t, to_state = t_to t, logs2prob = lp, wid = None\<rparr>"
        for table using None by (simp add: link_for_def lp_def)
      show "fsg_name g1 = fsg_name g0 \<and> fsg_lw g1 = fsg_lw g0 \<and> n_state g1 = n_state g0
                \<and> start_state g1 = start_state g0 \<and> final_state g1 = final_state g0"
        by (simp add: g1_def)
    qed
  next
    case (Some w)
    define cw where "cw = allocateUTF8OnStack w"
    show ?thesis
    proof (cases "word_add_fails E (vocab g0) cw")
      case True
      have "add_transitions E p (t # ts) h = (False, fsg_model_free h p)"
        using Some word_add_refused [OF True Cons.prems(1)] by (simp add: cw_def)
      then show ?thesis by (simp add: fsg_model_free_def)
    next
      case False
      define V1 where "V1 = (if cw \<in> set (vocab g0) then vocab g0 else vocab g0 @ [cw])"
      from word_add_spec [OF False Cons.prems(1)] obtain i where
        wa: "fsg_model_word_add E h p cw = (int i, h\<lparr>cells := (cells h)(p \<mapsto> g0\<lparr>vocab := V1\<rparr>)\<rparr>)"
        and wi: "fsg_model_word_id V1 cw = Some i"
        unfolding V1_def by blast
      define g1 where "g1 = g0\<lparr>vocab := V1, links := links g0 @ [\<lparr>from_state = t_from t, to_state = t_to t, logs2prob = lp, wid = Some i\<rparr>]\<rparr>"
      define h1 where "h1 = h\<lparr>cells := (cells h)(p \<mapsto> g1)\<rparr>"
      have s: "add_transitions E p (t # ts) h = add_transitions E p ts h1"
        using Some wa
        by (simp add: lp_def h1_def g1_def cw_def fsg_model_trans_add_def heap_update_def)
      show ?thesis
      proof (rule step [OF s h1_def])
        show "vocab g1 = first_occurrences (W0 @ words_of [t])"
          using Cons.prems(2) Some by (simp add: g1_def V1_def first_occurrences_snoc cw_def)
        show "links g1 = links g0 @ [\<lparr>from_state = t_from t, to_state = t_to t, logs2prob = lp, wid = Some i\<rparr>]"
          by (simp add: g1_def)
        show "link_for E table t = \<lparr>from_state = t_from t, to_state = t_to t, logs2prob = lp, wid = Some i\<rparr>"
          if "prefix (vocab g1) table" for table
        proof -
          have "prefix V1 table" using that by (simp add: g1_def)
          from word_id_prefix [OF this wi] show ?thesis
            using Some by (simp add: link_for_def lp_def cw_def)
        qed
        show "fsg_name g1 = fsg_name g0 \<and> fsg_lw g1 = fsg_lw g0 \<and> n_state g1 = n_state g0
                \<and> start_state g1 = start_state g0 \<and> final_state g1 = final_state g0"
          by (simp add: g1_def)
      qed
    qed
  qed
qed

lemma add_transitions_no_failure:
  assumes "\<forall>table w. \<not> word_add_fails E table w" and "cells h p = Some g0"
  shows "fst (add_transitions E p ts h)"
  using assms(2)
proof (induction ts arbitrary: h g0)
  case Nil
  show ?case by simp
next
  case (Cons t ts)
  show ?case
  proof (cases "t_word t")
    case None
    have "\<exists>g. cells (fsg_model_null_trans_add h p a b c) p = Some g" for a b c
      using Cons.prems by (simp add: fsg_model_null_trans_add_def heap_update_def)
    then have "fst (add_transitions E p ts (fsg_model_null_trans_add h p a b c))" for a b c
      using Cons.IH by blast
    then show ?thesis using None by (simp add: Let_def)
  next
    case (Some w)
    have nf: "\<not> word_add_fails E (vocab g0) (allocateUTF8OnStack w)" using assms(1) by simp
    from word_add_spec [OF nf Cons.prems] obtain i g' where
      wa: "fsg_model_word_add E h p (allocateUTF8OnStack w) = (int i, h\<lparr>cells := (cells h)(p \<mapsto> g')\<rparr>)"
      by blast
    have "\<exists>g. cells (fsg_model_trans_add (h\<lparr>cells := (cells h)(p \<mapsto> g')\<rparr>) p a b c x) p = Some g" for a b c x
      by (simp add: fsg_model_trans_add_def heap_update_def)
    then have "fst (add_transitions E p ts (fsg_model_trans_add (h\<lparr>cells := (cells h)(p \<mapsto> g')\<rparr>) p a b c x))"
      for a b c x
      using Cons.IH by blast
    then show ?thesis using Some wa by (simp add: Let_def)
  qed
qed

lemma add_transitions_refused_word:
  assumes "t \<in> set ts" and "t_word t = Some w"
    and "\<forall>table. word_add_fails E table (allocateUTF8OnStack w)"
    and "cells h p = Some g0"
  shows "\<not> fst (add_transitions E p ts h)"
  using assms(1,4)
proof (induction ts arbitrary: h g0)
  case Nil
  then show ?case by simp
next
  case (Cons u ts)
  show ?case
  proof (cases "t_word u")
    case None
    then have m: "t \<in> set ts" using Cons.prems(1) assms(2) by auto
    have "\<exists>g. cells (fsg_model_null_trans_add h p a b c) p = Some g" for a b c
      using Cons.prems(2) by (simp add: fsg_model_null_trans_add_def heap_update_def)
    then have "\<not> fst (add_transitions E p ts (fsg_model_null_trans_add h p a b c))" for a b c
      using Cons.IH [OF m] by blast
    then show ?thesis using None by (simp add: Let_def)
  next
    case (Some w')
    show ?thesis
    proof (cases "word_add_fails E (vocab g0) (allocateUTF8OnStack w')")
      case True
      show ?thesis
        using Some word_add_refused [OF True Cons.prems(2)] by simp
    next
      case False
      then have "u \<noteq> t" using Some assms(2,3) by auto
      then have m: "t \<in> set ts" using Cons.prems(1) by auto
      from word_add_spec [OF False Cons.prems(2)] obtain i g' where
        wa: "fsg_model_word_add E h p (allocateUTF8OnStack w') = (int i, h\<lparr>cells := (cells h)(p \<mapsto> g')\<rparr>)"
        by blast
      have "\<exists>g. cells (fsg_model_trans_add (h\<lparr>cells := (cells h)(p \<mapsto> g')\<rparr>) p a b c x) p = Some g" for a b c x
        by (simp add: fsg_model_trans_add_def heap_update_def)
      then have "\<not> fst (add_transitions E p ts (fsg_model_trans_add (h\<lparr>cells := (cells h)(p \<mapsto> g')\<rparr>) p a b c x))"
        for a b c x
        using Cons.IH [OF m] by blast
      then show ?thesis using Some wa by (simp add: Let_def)
    qed
  qed
qed

lemma max_state_Max:
  "max_state n ts = Max (insert n (t_from ` set ts \<union> t_to ` set ts))"
proof (induction ts arbitrary: n)
  case Nil
  show ?case by simp
next
  case (Cons t ts)
  define S where "S = t_from ` set ts \<union> t_to ` set ts"
  have fin: "finite S" by (simp add: S_def)
  have "Max (insert (max (max n (t_from t)) (t_to t)) S)
        = Max (insert n (insert (t_from t) (insert (t_to t) S)))"
    using fin by (cases "S = {}") (simp_all add: max.assoc)
  moreover have "insert n (t_from ` set (t # ts) \<union> t_to ` set (t # ts))
        = insert n (insert (t_from t) (insert (t_to t) S))"
    by (auto simp: S_def)
  ultimately show ?case using Cons [of "max (max n (t_from t)) (t_to t)"] by (simp add: S_def)
qed

lemma max_state_nonempty:
  assumes "ts \<noteq> []"
  shows "max_state 0 ts = Max (t_from ` set ts \<union> t_to ` set ts)"
proof -
  have ne: "t_from ` set ts \<union> t_to ` set ts \<noteq> {}" using assms by simp
  have "Max (insert 0 (t_from ` set ts \<union> t_to ` set ts)) = max 0 (Max (t_from ` set ts \<union> t_to ` set ts))"
    using ne by (intro Max_insert) simp_all
  then show ?thesis by (simp add: max_state_Max)
qed

lemma heap_update_order: "h\<lparr>brk := b, cells := c\<rparr> = h\<lparr>cells := c, brk := b\<rparr>"
  by (cases h) simp

lemma create_fsg_unfold:
  assumes "initialized d"
  shows "create_fsg E name start_st final_st ts d =
     (let p = Suc (brk (fsgs d));
          g0 = \<lparr>fsg_name = allocateUTF8OnStack name, fsg_lw = cmd_ln_float_r (config d) ''-lw'',
                n_state = max_state 0 ts + 1, start_state = start_st, final_state = final_st,
                links = [], vocab = []\<rparr>;
          h2 = (fsgs d)\<lparr>cells := (cells (fsgs d))(p \<mapsto> g0), brk := p\<rparr>;
          r = add_transitions E p ts h2
      in (Inr (if fst r then Grammar p else Zero), d\<lparr>fsgs := snd r\<rparr>))"
  using assms
  by (simp add: create_fsg_def await_def assert_initialized_def fsg_model_init_def heap_alloc_def
      fsg_set_states_def heap_update_def Let_def case_prod_beta heap_update_order)

text \<open>
  C3. On an initialized decoder, and with a native word table that accepts every word,
  \<open>create_fsg\<close> returns a grammar object whose automaton has one state more than the
  largest state index of any transition, the start and final states given, a word table
  holding each word text once in order of first appearance, and exactly one transition per
  transition object, in order: labelled with the id of its word when it has one, null
  otherwise. The spec's example is the witness: three states, two labelled transitions of
  log-probability 0, and the table \<open>a\<close>, \<open>b\<close> with ids 0 and 1.
\<close>

theorem create_fsg_builds:
  assumes "initialized d" and "\<forall>table w. \<not> word_add_fails E table w"
  shows "\<exists>g. create_fsg E name start_st final_st ts d
             = (Inr (Grammar (Suc (brk (fsgs d)))),
                d\<lparr>fsgs := (fsgs d)\<lparr>cells := (cells (fsgs d))(Suc (brk (fsgs d)) \<mapsto> g),
                                    brk := Suc (brk (fsgs d))\<rparr>\<rparr>)
        \<and> n_state g = max_state 0 ts + 1
        \<and> (ts \<noteq> [] \<longrightarrow> n_state g = 1 + Max (t_from ` set ts \<union> t_to ` set ts))
        \<and> start_state g = start_st \<and> final_state g = final_st
        \<and> vocab g = first_occurrences (words_of ts)
        \<and> links g = map (link_for E (vocab g)) ts"
proof -
  define p where "p = Suc (brk (fsgs d))"
  define g0 where "g0 = \<lparr>fsg_name = allocateUTF8OnStack name, fsg_lw = cmd_ln_float_r (config d) ''-lw'',
                n_state = max_state 0 ts + 1, start_state = start_st, final_state = final_st,
                links = [], vocab = []\<rparr>"
  define h2 where "h2 = (fsgs d)\<lparr>cells := (cells (fsgs d))(p \<mapsto> g0), brk := p\<rparr>"
  obtain ok h' where res: "add_transitions E p ts h2 = (ok, h')"
    by (cases "add_transitions E p ts h2")
  have c: "cells h2 p = Some g0" by (simp add: h2_def)
  have v: "vocab g0 = first_occurrences []" by (simp add: g0_def first_occurrences_def)
  have ok: "ok" using add_transitions_no_failure [OF assms(2) c, where ts = ts] res by simp
  from add_transitions_spec [OF c v, where E = E and ts = ts] res ok obtain g where
    h': "h' = h2\<lparr>cells := (cells h2)(p \<mapsto> g)\<rparr>"
    and vg: "vocab g = first_occurrences (words_of ts)"
    and lg: "links g = map (link_for E (vocab g)) ts"
    and same: "n_state g = n_state g0 \<and> start_state g = start_state g0 \<and> final_state g = final_state g0"
    by (auto simp add: g0_def)
  have hh: "h' = (fsgs d)\<lparr>cells := (cells (fsgs d))(p \<mapsto> g), brk := p\<rparr>"
    by (simp add: h' h2_def)
  have r: "create_fsg E name start_st final_st ts d = (Inr (Grammar p), d\<lparr>fsgs := h'\<rparr>)"
    using ok res unfolding h2_def g0_def p_def
    by (simp add: create_fsg_unfold [OF assms(1)] Let_def)
  have n: "n_state g = max_state 0 ts + 1" using same by (simp add: g0_def)
  have m: "ts \<noteq> [] \<longrightarrow> n_state g = 1 + Max (t_from ` set ts \<union> t_to ` set ts)"
    using n by (simp add: max_state_nonempty)
  have se: "start_state g = start_st \<and> final_state g = final_st" using same by (simp add: g0_def)
  show ?thesis
    using r n m se vg lg unfolding hh p_def by blast
qed

theorem create_fsg_builds_witness:
  "initialized demo_ready
   \<and> logmath_log demo_env 1 = 0
   \<and> (\<exists>g. create_fsg demo_env ''digits'' 0 2 demo_transitions demo_ready
             = (Inr (Grammar 1), demo_ready\<lparr>fsgs := \<lparr>cells = (\<lambda>p. None)(1 \<mapsto> g), brk = 1\<rparr>\<rparr>)
        \<and> n_state g = 3
        \<and> start_state g = 0 \<and> final_state g = 2
        \<and> vocab g = [''a'', ''b'']
        \<and> fsg_model_word_id (vocab g) ''a'' = Some 0 \<and> fsg_model_word_id (vocab g) ''b'' = Some 1
        \<and> links g = [\<lparr>from_state = 0, to_state = 1, logs2prob = 0, wid = Some 0\<rparr>,
                      \<lparr>from_state = 1, to_state = 2, logs2prob = 0, wid = Some 1\<rparr>])"
proof -
  have i: "initialized demo_ready" by (simp add: demo_ready_def)
  have l: "logmath_log demo_env 1 = 0" by (simp add: demo_env_def)
  have nf: "\<forall>table w. \<not> word_add_fails demo_env table w" by (simp add: demo_env_def)
  have b: "brk (fsgs demo_ready) = 0" "cells (fsgs demo_ready) = (\<lambda>p. None)"
    by (simp_all add: demo_ready_def demo_decoder_def demo_heap_def)
  from create_fsg_builds [OF i nf, of "''digits''" 0 2 demo_transitions] obtain g where
    r: "create_fsg demo_env ''digits'' 0 2 demo_transitions demo_ready
             = (Inr (Grammar (Suc (brk (fsgs demo_ready)))),
                demo_ready\<lparr>fsgs := (fsgs demo_ready)\<lparr>cells := (cells (fsgs demo_ready))(Suc (brk (fsgs demo_ready)) \<mapsto> g),
                                    brk := Suc (brk (fsgs demo_ready))\<rparr>\<rparr>)"
    and n: "n_state g = max_state 0 demo_transitions + 1"
    and se: "start_state g = 0 \<and> final_state g = 2"
    and v: "vocab g = first_occurrences (words_of demo_transitions)"
    and lk: "links g = map (link_for demo_env (vocab g)) demo_transitions"
    by blast
  have v': "vocab g = [''a'', ''b'']"
    unfolding v by (simp add: demo_transitions_def first_occurrences_def cstr_Cons cstr_Nil)
  have n': "n_state g = 3" unfolding n by (simp add: demo_transitions_def)
  have lk': "links g = [\<lparr>from_state = 0, to_state = 1, logs2prob = 0, wid = Some 0\<rparr>,
                      \<lparr>from_state = 1, to_state = 2, logs2prob = 0, wid = Some 1\<rparr>]"
    unfolding lk v' by (simp add: demo_transitions_def link_for_def l cstr_Cons cstr_Nil)
  have h: "(fsgs demo_ready)\<lparr>cells := (cells (fsgs demo_ready))(Suc (brk (fsgs demo_ready)) \<mapsto> g),
                                    brk := Suc (brk (fsgs demo_ready))\<rparr>
           = \<lparr>cells = (\<lambda>p. None)(1 \<mapsto> g), brk = 1\<rparr>"
    by (simp add: demo_ready_def demo_decoder_def demo_heap_def)
  have r': "create_fsg demo_env ''digits'' 0 2 demo_transitions demo_ready
             = (Inr (Grammar 1), demo_ready\<lparr>fsgs := \<lparr>cells = (\<lambda>p. None)(1 \<mapsto> g), brk = 1\<rparr>\<rparr>)"
    using r unfolding h by (simp add: b)
  have w: "fsg_model_word_id (vocab g) ''a'' = Some 0 \<and> fsg_model_word_id (vocab g) ''b'' = Some 1"
    unfolding v' by simp
  show ?thesis using i l r' n' se v' w lk' by blast
qed

text \<open>
  C9. On an initialized decoder \<open>create_fsg\<close> never throws: it returns the number 0 or
  a grammar object. When it returns 0, which it does whenever a transition carries a word
  that the native table refuses, the automaton it had allocated is freed. When it returns
  a grammar object, the automaton holds a transition for every transition object: no
  partly built automaton is handed to the caller. Nothing else in memory and no field of
  the decoder changes.
\<close>

theorem create_fsg_word_add_failure:
  assumes "initialized d"
  shows "(fst (create_fsg E name start_st final_st ts d) = Inr Zero
          \<or> fst (create_fsg E name start_st final_st ts d) = Inr (Grammar (Suc (brk (fsgs d)))))
       \<and> (fst (create_fsg E name start_st final_st ts d) = Inr Zero \<longrightarrow>
            cells (fsgs (snd (create_fsg E name start_st final_st ts d))) (Suc (brk (fsgs d))) = None)
       \<and> (fst (create_fsg E name start_st final_st ts d) = Inr (Grammar (Suc (brk (fsgs d)))) \<longrightarrow>
            (\<exists>g. cells (fsgs (snd (create_fsg E name start_st final_st ts d))) (Suc (brk (fsgs d))) = Some g
               \<and> links g = map (link_for E (vocab g)) ts))
       \<and> (\<forall>q. q \<noteq> Suc (brk (fsgs d)) \<longrightarrow>
            cells (fsgs (snd (create_fsg E name start_st final_st ts d))) q = cells (fsgs d) q)
       \<and> ((\<exists>t\<in>set ts. \<exists>w. t_word t = Some w \<and> (\<forall>table. word_add_fails E table (allocateUTF8OnStack w))) \<longrightarrow>
            fst (create_fsg E name start_st final_st ts d) = Inr Zero)
       \<and> snd (create_fsg E name start_st final_st ts d)
           = d\<lparr>fsgs := fsgs (snd (create_fsg E name start_st final_st ts d))\<rparr>"
proof -
  define p where "p = Suc (brk (fsgs d))"
  define g0 where "g0 = \<lparr>fsg_name = allocateUTF8OnStack name, fsg_lw = cmd_ln_float_r (config d) ''-lw'',
                n_state = max_state 0 ts + 1, start_state = start_st, final_state = final_st,
                links = [], vocab = []\<rparr>"
  define h2 where "h2 = (fsgs d)\<lparr>cells := (cells (fsgs d))(p \<mapsto> g0), brk := p\<rparr>"
  obtain ok h' where res: "add_transitions E p ts h2 = (ok, h')"
    by (cases "add_transitions E p ts h2")
  have c: "cells h2 p = Some g0" by (simp add: h2_def)
  have v: "vocab g0 = first_occurrences []" by (simp add: g0_def first_occurrences_def)
  have r: "create_fsg E name start_st final_st ts d = (Inr (if ok then Grammar p else Zero), d\<lparr>fsgs := h'\<rparr>)"
    using res unfolding h2_def g0_def p_def
    by (simp add: create_fsg_unfold [OF assms(1)] Let_def)
  note sp = add_transitions_spec [OF c v, where E = E and ts = ts, unfolded res]
  have a: "fst (create_fsg E name start_st final_st ts d) = Inr Zero
          \<or> fst (create_fsg E name start_st final_st ts d) = Inr (Grammar p)"
    by (simp add: r)
  have b: "fst (create_fsg E name start_st final_st ts d) = Inr Zero \<Longrightarrow>
            cells (fsgs (snd (create_fsg E name start_st final_st ts d))) p = None"
    using sp by (cases ok) (simp_all add: r)
  have cc: "fst (create_fsg E name start_st final_st ts d) = Inr (Grammar p) \<Longrightarrow>
            (\<exists>g. cells (fsgs (snd (create_fsg E name start_st final_st ts d))) p = Some g
               \<and> links g = map (link_for E (vocab g)) ts)"
    using sp by (cases ok) (auto simp add: r g0_def)
  have fr: "\<forall>q. q \<noteq> p \<longrightarrow> cells (fsgs (snd (create_fsg E name start_st final_st ts d))) q = cells (fsgs d) q"
    using sp by (cases ok) (auto simp add: r h2_def)
  have rf: "(\<exists>t\<in>set ts. \<exists>w. t_word t = Some w \<and> (\<forall>table. word_add_fails E table (allocateUTF8OnStack w))) \<Longrightarrow>
            fst (create_fsg E name start_st final_st ts d) = Inr Zero"
  proof -
    assume "\<exists>t\<in>set ts. \<exists>w. t_word t = Some w \<and> (\<forall>table. word_add_fails E table (allocateUTF8OnStack w))"
    then obtain t w where "t \<in> set ts" "t_word t = Some w"
      "\<forall>table. word_add_fails E table (allocateUTF8OnStack w)" by blast
    from add_transitions_refused_word [OF this c] res have "\<not> ok" by simp
    then show ?thesis by (simp add: r)
  qed
  have js: "snd (create_fsg E name start_st final_st ts d)
           = d\<lparr>fsgs := fsgs (snd (create_fsg E name start_st final_st ts d))\<rparr>"
    by (simp add: r)
  show ?thesis using a b cc fr rf js unfolding p_def by blast
qed

theorem create_fsg_word_add_failure_witness:
  "initialized demo_ready
   \<and> word_add_fails demo_env_refusing [''a''] ''b''
   \<and> fst (create_fsg demo_env_refusing ''digits'' 0 2 demo_transitions demo_ready) = Inr Zero
   \<and> cells (fsgs (snd (create_fsg demo_env_refusing ''digits'' 0 2 demo_transitions demo_ready))) 1 = None
   \<and> fst (create_fsg demo_env ''digits'' 0 2 demo_transitions demo_ready) = Inr (Grammar 1)"
proof -
  have i: "initialized demo_ready" by (simp add: demo_ready_def)
  have f: "word_add_fails demo_env_refusing [''a''] ''b''" by (simp add: demo_env_refusing_def)
  have b: "Suc (brk (fsgs demo_ready)) = 1"
    by (simp add: demo_ready_def demo_decoder_def demo_heap_def)
  have ex: "\<exists>t\<in>set demo_transitions. \<exists>w. t_word t = Some w
      \<and> (\<forall>table. word_add_fails demo_env_refusing table (allocateUTF8OnStack w))"
    by (simp add: demo_transitions_def demo_env_refusing_def cstr_Cons cstr_Nil)
  note T = create_fsg_word_add_failure [OF i, of demo_env_refusing "''digits''" 0 2 demo_transitions,
      unfolded b]
  have z: "fst (create_fsg demo_env_refusing ''digits'' 0 2 demo_transitions demo_ready) = Inr Zero"
    using T ex by blast
  have n: "cells (fsgs (snd (create_fsg demo_env_refusing ''digits'' 0 2 demo_transitions demo_ready))) 1 = None"
    using T z by blast
  have g: "fst (create_fsg demo_env ''digits'' 0 2 demo_transitions demo_ready) = Inr (Grammar 1)"
    by code_simp
  show ?thesis using i f z n g by blast
qed

section \<open>Properties of grammar text\<close>

lemma find_none: "(\<forall>r\<in>set xs. \<not> P r) \<Longrightarrow> find P xs = None"
  by (simp add: find_None_iff)

lemma find_first: "(\<forall>x\<in>set pre. \<not> P x) \<Longrightarrow> P r \<Longrightarrow> find P (pre @ r # post) = Some r"
  by (induction pre) auto

lemma parse_jsgf_unfold:
  assumes "initialized d" and "jsgf_parse_string E (allocateUTF8OnStack text) = Some jsgf"
  shows "parse_jsgf E text toprule d =
     (case top_rule jsgf toprule of
        Inl e \<Rightarrow> (Inl e, d)
      | Inr rule \<Rightarrow>
          (case jsgf_build_fsg E jsgf rule (ps_get_logmath E) (cmd_ln_float_r (config d) ''-lw'') of
             None \<Rightarrow> (Inr (Grammar 0), d)
           | Some g \<Rightarrow>
               (Inr (Grammar (Suc (brk (fsgs d)))),
                d\<lparr>fsgs := (fsgs d)\<lparr>cells := (cells (fsgs d))(Suc (brk (fsgs d)) \<mapsto> g),
                                    brk := Suc (brk (fsgs d))\<rparr>\<rparr>)))"
  using assms
  by (simp add: parse_jsgf_def await_def assert_initialized_def Let_def heap_alloc_def
      split: sum.splits option.splits)

text \<open>
  C4, amended. On an initialized decoder and a text that parses, \<open>parse_jsgf\<close> builds
  the automaton from the rule that \<open>top_rule\<close> resolves. With a rule name given, that
  is the first rule of this name, and when there is none the method throws an \<open>Error\<close>
  with the message \<open>Failed to find top rule\<close> and the name. Without a name it is the
  first rule marked public, and when no rule is public the method throws an \<open>Error\<close>
  with the message \<open>No public rules found in JSGF\<close>. For two rules of which exactly one
  is public, the public one is resolved.
\<close>

theorem parse_jsgf_top_rule:
  assumes "initialized d" and "jsgf_parse_string E (allocateUTF8OnStack text) = Some jsgf"
  shows "parse_jsgf E text toprule d =
     (case top_rule jsgf toprule of
        Inl e \<Rightarrow> (Inl e, d)
      | Inr rule \<Rightarrow>
          (case jsgf_build_fsg E jsgf rule (ps_get_logmath E) (cmd_ln_float_r (config d) ''-lw'') of
             None \<Rightarrow> (Inr (Grammar 0), d)
           | Some g \<Rightarrow>
               (Inr (Grammar (Suc (brk (fsgs d)))),
                d\<lparr>fsgs := (fsgs d)\<lparr>cells := (cells (fsgs d))(Suc (brk (fsgs d)) \<mapsto> g),
                                    brk := Suc (brk (fsgs d))\<rparr>\<rparr>)))
   \<and> ((\<forall>r\<in>set jsgf. rule_name r \<noteq> allocateUTF8OnStack name) \<longrightarrow>
        parse_jsgf E text (Some name) d = (Inl (Error (''Failed to find top rule '' @ name)), d))
   \<and> ((\<forall>r\<in>set jsgf. \<not> is_public r) \<longrightarrow>
        parse_jsgf E text None d = (Inl (Error ''No public rules found in JSGF''), d))
   \<and> (jsgf = pre @ r # post \<and> (\<forall>x\<in>set pre. rule_name x \<noteq> allocateUTF8OnStack name)
        \<and> rule_name r = allocateUTF8OnStack name \<longrightarrow> top_rule jsgf (Some name) = Inr r)
   \<and> (jsgf = pre @ r # post \<and> (\<forall>x\<in>set pre. \<not> is_public x) \<and> is_public r \<longrightarrow>
        top_rule jsgf None = Inr r)
   \<and> (jsgf = [r1, r2] \<and> is_public r1 \<noteq> is_public r2 \<longrightarrow>
        top_rule jsgf None = Inr (if is_public r1 then r1 else r2))"
proof -
  note u = parse_jsgf_unfold [OF assms]
  have a: "(\<forall>r\<in>set jsgf. rule_name r \<noteq> allocateUTF8OnStack name) \<Longrightarrow>
        parse_jsgf E text (Some name) d = (Inl (Error (''Failed to find top rule '' @ name)), d)"
    by (simp add: u top_rule_def jsgf_get_rule_def find_none)
  have b: "(\<forall>r\<in>set jsgf. \<not> is_public r) \<Longrightarrow>
        parse_jsgf E text None d = (Inl (Error ''No public rules found in JSGF''), d)"
    by (simp add: u top_rule_def jsgf_get_public_rule_def find_none)
  have c: "jsgf = pre @ r # post \<and> (\<forall>x\<in>set pre. rule_name x \<noteq> allocateUTF8OnStack name)
        \<and> rule_name r = allocateUTF8OnStack name \<Longrightarrow> top_rule jsgf (Some name) = Inr r"
    by (simp add: top_rule_def jsgf_get_rule_def find_first)
  have e: "jsgf = pre @ r # post \<and> (\<forall>x\<in>set pre. \<not> is_public x) \<and> is_public r \<Longrightarrow>
        top_rule jsgf None = Inr r"
    by (simp add: top_rule_def jsgf_get_public_rule_def find_first)
  have f: "jsgf = [r1, r2] \<and> is_public r1 \<noteq> is_public r2 \<Longrightarrow>
        top_rule jsgf None = Inr (if is_public r1 then r1 else r2)"
    by (auto simp add: top_rule_def jsgf_get_public_rule_def)
  show ?thesis using u a b c e f by blast
qed

text \<open>
  C4, as the code has it. A rule name that the grammar does not define makes \<open>parse_jsgf\<close>
  throw the generic \<open>Error\<close>, not a \<open>ReferenceError\<close>.
\<close>

theorem parse_jsgf_error_class_counterexample:
  "fst (parse_jsgf demo_env ''public <number> = <digit>;'' (Some ''nope'') demo_ready)
     = Inl (Error ''Failed to find top rule nope'')
   \<and> \<not> is_ReferenceError (Error ''Failed to find top rule nope'')"
  by (simp add: parse_jsgf_def await_def assert_initialized_def Let_def demo_ready_def demo_env_def
      demo_grammar_def top_rule_def jsgf_get_rule_def cstr_Cons cstr_Nil)

theorem parse_jsgf_top_rule_witness:
  "initialized demo_ready
   \<and> jsgf_parse_string demo_env (allocateUTF8OnStack ''public <number> = <digit>;'') = Some demo_grammar
   \<and> parse_jsgf demo_env ''public <number> = <digit>;'' (Some ''nope'') demo_ready
       = (Inl (Error ''Failed to find top rule nope''), demo_ready)
   \<and> top_rule demo_grammar None = Inr \<lparr>rule_name = ''number'', is_public = True\<rparr>
   \<and> top_rule demo_grammar (Some ''digit'') = Inr \<lparr>rule_name = ''digit'', is_public = False\<rparr>
   \<and> parse_jsgf demo_env ''public <number> = <digit>;'' None demo_ready = (Inr (Grammar 0), demo_ready)"
proof -
  have i: "initialized demo_ready" by (simp add: demo_ready_def)
  have p: "jsgf_parse_string demo_env (allocateUTF8OnStack ''public <number> = <digit>;'') = Some demo_grammar"
    by (simp add: demo_env_def)
  note T = parse_jsgf_top_rule [OF i p, where name = "''nope''" and toprule = None
      and ?r1.0 = "\<lparr>rule_name = ''digit'', is_public = False\<rparr>"
      and ?r2.0 = "\<lparr>rule_name = ''number'', is_public = True\<rparr>"
      and pre = "[]" and r = "\<lparr>rule_name = ''digit'', is_public = False\<rparr>"
      and post = "[\<lparr>rule_name = ''number'', is_public = True\<rparr>]"]
  note U = parse_jsgf_top_rule [OF i p, where name = "''digit''" and toprule = None
      and pre = "[]" and r = "\<lparr>rule_name = ''digit'', is_public = False\<rparr>"
      and post = "[\<lparr>rule_name = ''number'', is_public = True\<rparr>]"]
  have n: "\<forall>r\<in>set demo_grammar. rule_name r \<noteq> allocateUTF8OnStack ''nope''"
    by (simp add: demo_grammar_def cstr_Cons cstr_Nil)
  have a: "parse_jsgf demo_env ''public <number> = <digit>;'' (Some ''nope'') demo_ready
       = (Inl (Error ''Failed to find top rule nope''), demo_ready)"
    using T n by simp
  have g: "demo_grammar = [\<lparr>rule_name = ''digit'', is_public = False\<rparr>, \<lparr>rule_name = ''number'', is_public = True\<rparr>]
      \<and> is_public \<lparr>rule_name = ''digit'', is_public = False\<rparr> \<noteq> is_public \<lparr>rule_name = ''number'', is_public = True\<rparr>"
    by (simp add: demo_grammar_def)
  have b: "top_rule demo_grammar None = Inr \<lparr>rule_name = ''number'', is_public = True\<rparr>"
    using T g by simp
  have g2: "demo_grammar = [] @ \<lparr>rule_name = ''digit'', is_public = False\<rparr> # [\<lparr>rule_name = ''number'', is_public = True\<rparr>]
      \<and> (\<forall>x\<in>set []. rule_name x \<noteq> allocateUTF8OnStack ''digit'')
      \<and> rule_name \<lparr>rule_name = ''digit'', is_public = False\<rparr> = allocateUTF8OnStack ''digit''"
    by (simp add: demo_grammar_def cstr_Cons cstr_Nil)
  have c: "top_rule demo_grammar (Some ''digit'') = Inr \<lparr>rule_name = ''digit'', is_public = False\<rparr>"
    using U g2 by blast
  have bf: "jsgf_build_fsg demo_env j r l w = None" for j r l w
    by (simp add: demo_env_def)
  have e: "parse_jsgf demo_env ''public <number> = <digit>;'' None demo_ready = (Inr (Grammar 0), demo_ready)"
    using T b by (simp add: bf)
  show ?thesis using i p a b c e by blast
qed

end
